theory Spec2Isabelle
  imports Main "HOL-Library.Char_ord" "HOL-Library.List_Lexorder" "HOL-Library.Multiset"
    "HOL-Library.Word"
begin

unbundle bit_operations_syntax

section \<open>android-otp-extractor, \<^verbatim>\<open>contrib.py\<close>: the model\<close>

text \<open>
  A Python \<^verbatim>\<open>str\<close> is modelled as a \<^typ>\<open>string\<close>, one \<^typ>\<open>char\<close> per code
  point (code points 0 to 255). Every character the module singles out (the nine keys of
  the escape table, the bracket the renderer rewrites, the slash and the dot of a POSIX
  path) is ASCII, and every operation below works character by character. Bytes are
  8-bit words.

  An exception is a value. \<open>FileNotFoundError\<close> is the class the loader's
  \<^verbatim>\<open>except\<close> clause names, \<open>ValueError\<close> the class \<^verbatim>\<open>PurePosixPath.with_name\<close>
  raises, \<open>OtherError\<close> every class that is neither (permission, I/O, transport,
  \<^verbatim>\<open>sqlite3.Error\<close>, \<^verbatim>\<open>webbrowser.Error\<close>, an exception of the caller's, an
  interrupt). The string is the exception's message, kept so that "the same exception"
  can be told from "an exception of the same class".
\<close>

datatype exn = FileNotFoundError string | ValueError string | OtherError string

fun is_FileNotFoundError :: "exn \<Rightarrow> bool" where
  "is_FileNotFoundError (FileNotFoundError m) = True"
| "is_FileNotFoundError (ValueError m) = False"
| "is_FileNotFoundError (OtherError m) = False"

type_synonym bytes = "8 word list"

subsection \<open>SQL literal escaper\<close>

text \<open>
  \<^verbatim>\<open>SQL_BACKSLASHED_CHARS = str.maketrans({...})\<close>: the dictionary in the order it is
  written, keys as characters, values as the replacement strings. \<open>0x5C\<close> is the
  backslash, \<open>0x27\<close> the single quote, \<open>0x25\<close> the percent sign.
\<close>

definition SQL_BACKSLASHED_CHARS :: "(char \<times> string) list" where
  "SQL_BACKSLASHED_CHARS =
    [(CHR 0x00, [CHR 0x5C, CHR ''0'']),
     (CHR 0x08, [CHR 0x5C, CHR ''b'']),
     (CHR 0x09, [CHR 0x5C, CHR ''t'']),
     (CHR 0x1A, [CHR 0x5C, CHR ''z'']),
     (CHR 0x0A, [CHR 0x5C, CHR ''n'']),
     (CHR 0x0D, [CHR 0x5C, CHR ''r'']),
     (CHR 0x5C, [CHR 0x5C, CHR 0x5C]),
     (CHR 0x25, [CHR 0x5C, CHR 0x25]),
     (CHR 0x27, [CHR 0x27, CHR 0x27])]"

text \<open>
  \<^verbatim>\<open>str.translate(table)\<close>: each character that is a key of the table is replaced by the
  table's value, every other character is kept.
\<close>

definition translate :: "(char \<times> string) list \<Rightarrow> string \<Rightarrow> string" where
  "translate tbl text =
     concat (map (\<lambda>c. case map_of tbl c of Some r \<Rightarrow> r | None \<Rightarrow> [c]) text)"

text \<open>\<^verbatim>\<open>return "'" + text.translate(SQL_BACKSLASHED_CHARS) + "'"\<close>\<close>

definition escape_sql_string :: "string \<Rightarrow> string" where
  "escape_sql_string text = [CHR 0x27] @ translate SQL_BACKSLASHED_CHARS text @ [CHR 0x27]"

text \<open>
  The substitution table as the specification words it, one row after the other; the last
  row is "no other characters are altered".
\<close>

definition spec_substitution :: "char \<Rightarrow> string" where
  "spec_substitution c =
     (if c = CHR 0x00 then [CHR 0x5C, CHR ''0'']
      else if c = CHR 0x08 then [CHR 0x5C, CHR ''b'']
      else if c = CHR 0x09 then [CHR 0x5C, CHR ''t'']
      else if c = CHR 0x1A then [CHR 0x5C, CHR ''z'']
      else if c = CHR 0x0A then [CHR 0x5C, CHR ''n'']
      else if c = CHR 0x0D then [CHR 0x5C, CHR ''r'']
      else if c = CHR 0x5C then [CHR 0x5C, CHR 0x5C]
      else if c = CHR 0x25 then [CHR 0x5C, CHR 0x25]
      else if c = CHR 0x27 then [CHR 0x27, CHR 0x27]
      else [c])"

text \<open>
  The docstring of \<^verbatim>\<open>escape_sql_string\<close> names the consumer of the literal: SQLite
  (\<^verbatim>\<open>PRAGMA\<close> statements, which take no bound parameters). SQLite reads a string literal
  as follows (its tokenizer and \<^verbatim>\<open>sqlite3Dequote\<close>): the literal opens with a single
  quote; inside it two single quotes in a row stand for one; a single quote followed by
  anything else closes it; the backslash is an ordinary character; a NUL ends the
  statement text. \<open>literal_body\<close> reads the text after the opening quote and returns the
  value and what follows the closing quote; \<open>sqlite_string_literal\<close> is the value of a
  text that is one string literal and nothing more.
\<close>

fun push :: "char \<Rightarrow> (string \<times> string) option \<Rightarrow> (string \<times> string) option" where
  "push c None = None"
| "push c (Some (v, rest)) = Some (c # v, rest)"

fun literal_body :: "string \<Rightarrow> (string \<times> string) option" where
  "literal_body [] = None"
| "literal_body [c] = (if c = CHR 0x27 then Some ([], []) else None)"
| "literal_body (c # d # cs) =
     (if c = CHR 0x00 then None
      else if c = CHR 0x27 then
        (if d = CHR 0x27 then push (CHR 0x27) (literal_body cs) else Some ([], d # cs))
      else push c (literal_body (d # cs)))"

definition sqlite_string_literal :: "string \<Rightarrow> string option" where
  "sqlite_string_literal text =
     (case text of
        [] \<Rightarrow> None
      | q # body \<Rightarrow>
          if q = CHR 0x27 then
            (case literal_body body of
               Some (v, []) \<Rightarrow> Some v
             | Some (v, x # xs) \<Rightarrow> None
             | None \<Rightarrow> None)
          else None)"

text \<open>
  What SQLite reads back for one character of the escaped text: the doubled quote is one
  quote again, every other substitution stays as it was written.
\<close>

definition sqlite_reads :: "char \<Rightarrow> string" where
  "sqlite_reads c = (if c = CHR 0x27 then [CHR 0x27] else spec_substitution c)"

subsection \<open>POSIX paths (\<^verbatim>\<open>pathlib.PurePosixPath\<close>)\<close>

text \<open>
  A pure POSIX path is its root (\<open>''''\<close>, \<open>''/''\<close> or \<open>''//''\<close>; the drive is always empty)
  and its components. \<open>str_split\<close> is \<^verbatim>\<open>str.split(sep)\<close> for a one-character
  separator, \<open>splitroot\<close> is \<^verbatim>\<open>posixpath.splitroot\<close>, \<open>PurePosixPath\<close> parses a string
  as the constructor does: empty components and \<open>''.''\<close> are dropped.
\<close>

record ppath =
  root :: string
  parts :: "string list"

fun str_split :: "char \<Rightarrow> string \<Rightarrow> string list" where
  "str_split sep [] = [[]]"
| "str_split sep (c # cs) =
     (if c = sep then [] # str_split sep cs
      else (case str_split sep cs of w # ws \<Rightarrow> (c # w) # ws | [] \<Rightarrow> [[c]]))"

definition splitroot :: "string \<Rightarrow> string \<times> string" where
  "splitroot p =
     (if take 1 p \<noteq> ''/'' then ('''', p)
      else if take 1 (drop 1 p) \<noteq> ''/'' \<or> take 1 (drop 2 p) = ''/'' then (''/'', drop 1 p)
      else (take 2 p, drop 2 p))"

definition PurePosixPath :: "string \<Rightarrow> ppath" where
  "PurePosixPath s =
     (case splitroot s of
        (r, rel) \<Rightarrow>
          \<lparr>root = r, parts = filter (\<lambda>x. x \<noteq> [] \<and> x \<noteq> ''.'') (str_split (CHR ''/'') rel)\<rparr>)"

text \<open>\<^verbatim>\<open>path.name\<close>: the last component, the empty string when there is none.\<close>

definition path_name :: "ppath \<Rightarrow> string" where
  "path_name p = (case parts p of [] \<Rightarrow> [] | x # xs \<Rightarrow> last (x # xs))"

text \<open>
  \<^verbatim>\<open>path.with_name(name)\<close> raises \<^verbatim>\<open>ValueError\<close> on a path with an empty name and on a
  new name that is empty, contains a separator or is \<open>''.''\<close>; otherwise it replaces the
  last component.
\<close>

definition with_name :: "ppath \<Rightarrow> string \<Rightarrow> exn + ppath" where
  "with_name p n =
     (if path_name p = [] then Inl (ValueError ''has an empty name'')
      else if n = [] \<or> CHR ''/'' \<in> set n \<or> n = ''.'' then Inl (ValueError ''Invalid name'')
      else Inr (p\<lparr>parts := butlast (parts p) @ [n]\<rparr>))"

text \<open>\<^verbatim>\<open>sep.join(xs)\<close> and \<^verbatim>\<open>str(path)\<close>.\<close>

fun join :: "string \<Rightarrow> string list \<Rightarrow> string" where
  "join sep [] = []"
| "join sep [x] = x"
| "join sep (x # y # ys) = x @ sep @ join sep (y # ys)"

definition path_str :: "ppath \<Rightarrow> string" where
  "path_str p = (if root p = [] \<and> parts p = [] then ''.'' else root p @ join ''/'' (parts p))"

subsection \<open>Remote snapshot loader\<close>

text \<open>
  The world the loader acts on: the local directories (a directory is the map from the
  names of its files to their bytes; a path that is not in the map does not exist), the
  database paths of the connections that are open, and the trace of what was done, in
  order.
\<close>

datatype event =
    Mkdtemp string
  | Write_bytes string string
  | Connect string
  | Yield string
  | Close string
  | Rmtree string

type_synonym localfs = "string \<rightharpoonup> (string \<rightharpoonup> bytes)"

record world =
  localfs :: localfs
  connections :: "string list"
  events :: "event list"

text \<open>
  The collaborators. \<open>adb\<close> is the device-bridge client: \<^verbatim>\<open>adb.read_file(path)\<close> raises
  or returns a stream, and the stream's \<^verbatim>\<open>read()\<close> raises or returns the bytes.
  \<open>sqlite3\<close> is the module passed as the keyword argument: \<^verbatim>\<open>sqlite3.connect(db_path)\<close>
  raises (\<open>Some e\<close>) or returns a connection. \<open>local_os\<close> is the local system:
  the fresh directory \<^verbatim>\<open>TemporaryDirectory()\<close> creates, and the failure, if any, of
  writing a file of a given name. The caller's block receives the connection and the local
  directories, and returns its result or its exception and the local directories as it
  leaves them.
\<close>

type_synonym stream = "exn + bytes"
type_synonym adb = "ppath \<Rightarrow> exn + stream"
type_synonym sqlite3 = "string \<Rightarrow> exn option"

record local_os =
  mkdtemp :: string
  write_fault :: "string \<Rightarrow> exn option"

datatype row_factory = Default_rows | Row

record connection =
  db_path :: string
  row_factory :: row_factory

type_synonym 'r block = "connection \<Rightarrow> localfs \<Rightarrow> (exn + 'r) \<times> localfs"

text \<open>\<^verbatim>\<open>for suffix in ['', '-journal', '-wal', '-shm']\<close>\<close>

definition suffixes :: "string list" where
  "suffixes = ['''', ''-journal'', ''-wal'', ''-shm'']"

text \<open>\<^verbatim>\<open>remote_file = database.with_name(database.name + suffix)\<close>\<close>

definition remote_file :: "ppath \<Rightarrow> string \<Rightarrow> exn + ppath" where
  "remote_file database suffix = with_name database (path_name database @ suffix)"

text \<open>
  \<^verbatim>\<open>(temp_dir / remote_file.name).write_bytes(data)\<close>: the file of that name in the
  directory is created or replaced. Writing into a directory that does not exist raises
  \<^verbatim>\<open>FileNotFoundError\<close>.
\<close>

definition write_bytes :: "local_os \<Rightarrow> string \<Rightarrow> string \<Rightarrow> bytes \<Rightarrow> world \<Rightarrow> exn + world" where
  "write_bytes os dir n data w =
     (case write_fault os n of
        Some e \<Rightarrow> Inl e
      | None \<Rightarrow>
          (case localfs w dir of
             None \<Rightarrow> Inl (FileNotFoundError dir)
           | Some files \<Rightarrow>
               Inr (w\<lparr>localfs := (localfs w)(dir \<mapsto> files(n \<mapsto> data)),
                       events := events w @ [Write_bytes dir n]\<rparr>)))"

text \<open>
  The loop over the suffixes. \<open>Some e\<close>: the loop was left by the exception \<open>e\<close>. The
  \<^verbatim>\<open>except FileNotFoundError\<close> clause guards \<^verbatim>\<open>adb.read_file(remote_file)\<close> only;
  \<^verbatim>\<open>contents.read()\<close> and \<^verbatim>\<open>write_bytes\<close> stand in the \<^verbatim>\<open>else\<close> clause, where no
  exception is caught.
\<close>

fun pull_files :: "adb \<Rightarrow> local_os \<Rightarrow> ppath \<Rightarrow> string \<Rightarrow> string list \<Rightarrow> world \<Rightarrow> exn option \<times> world"
  where
  "pull_files adb os database temp_dir [] w = (None, w)"
| "pull_files adb os database temp_dir (suffix # rest) w =
     (case remote_file database suffix of
        Inl e \<Rightarrow> (Some e, w)
      | Inr rf \<Rightarrow>
          (case adb rf of
             Inl e \<Rightarrow>
               if is_FileNotFoundError e then
                 (if suffix = [] then (Some e, w)
                  else pull_files adb os database temp_dir rest w)
               else (Some e, w)
           | Inr contents \<Rightarrow>
               (case contents of
                  Inl e \<Rightarrow> (Some e, w)
                | Inr data \<Rightarrow>
                    (case write_bytes os temp_dir (path_name rf) data w of
                       Inl e \<Rightarrow> (Some e, w)
                     | Inr w' \<Rightarrow> pull_files adb os database temp_dir rest w'))))"

text \<open>\<^verbatim>\<open>connection.close()\<close> and the removal of the directory with all it holds.\<close>

definition close :: "string \<Rightarrow> world \<Rightarrow> world" where
  "close p w = w\<lparr>connections := remove1 p (connections w), events := events w @ [Close p]\<rparr>"

definition rmtree :: "string \<Rightarrow> world \<Rightarrow> world" where
  "rmtree d w = w\<lparr>localfs := (localfs w)(d := None), events := events w @ [Rmtree d]\<rparr>"

text \<open>
  \<^verbatim>\<open>with contextlib.closing(sqlite3.connect(db_path)) as connection:\<close>
  \<^verbatim>\<open>connection.row_factory = sqlite3.Row; yield connection\<close>. The caller's block runs at
  the \<^verbatim>\<open>yield\<close>; whether it returns or raises, \<^verbatim>\<open>closing\<close> closes the connection.
\<close>

definition closing_connect :: "sqlite3 \<Rightarrow> string \<Rightarrow> 'r block \<Rightarrow> world \<Rightarrow> (exn + 'r) \<times> world" where
  "closing_connect sqlite3 p body w =
     (case sqlite3 p of
        Some e \<Rightarrow> (Inl e, w)
      | None \<Rightarrow>
          (let w1 = w\<lparr>connections := p # connections w, events := events w @ [Connect p]\<rparr>;
               conn = \<lparr>db_path = p, row_factory = Row\<rparr>;
               (r, fs) = body conn (localfs w1);
               w2 = w1\<lparr>localfs := fs, events := events w1 @ [Yield p]\<rparr>
           in (r, close p w2)))"

text \<open>
  The whole scoped block, \<^verbatim>\<open>with open_remote_sqlite_database(adb, database) as c: body\<close>.
  \<^verbatim>\<open>TemporaryDirectory()\<close> creates the directory, the loop and the connection run inside
  its \<^verbatim>\<open>with\<close>, and its exit removes the directory on every way out. Every step
  between the creation of the directory and its removal can raise: the path arithmetic, the
  remote reads, the local writes, \<^verbatim>\<open>sqlite3.connect\<close> and the caller's block. The two
  releasing steps themselves, \<^verbatim>\<open>close()\<close> and the removal of the directory, are taken
  to do what they are called for.
\<close>

definition open_remote_sqlite_database ::
  "adb \<Rightarrow> string \<Rightarrow> sqlite3 \<Rightarrow> local_os \<Rightarrow> 'r block \<Rightarrow> world \<Rightarrow> (exn + 'r) \<times> world" where
  "open_remote_sqlite_database adb database sqlite3 os body w =
     (let db = PurePosixPath database;
          temp_dir = mkdtemp os;
          w1 = w\<lparr>localfs := (localfs w)(temp_dir \<mapsto> Map.empty),
                  events := events w @ [Mkdtemp temp_dir]\<rparr>;
          (r, w2) =
            (case pull_files adb os db temp_dir suffixes w1 of
               (Some e, w') \<Rightarrow> (Inl e, w')
             | (None, w') \<Rightarrow> closing_connect sqlite3 (temp_dir @ ''/'' @ path_name db) body w')
      in (r, rmtree temp_dir w2))"

text \<open>
  Two readings of the device for one suffix, used to state what the loop stores:
  \<open>fetched\<close> is the bytes of the remote file when \<^verbatim>\<open>adb.read_file\<close> and the stream's
  \<^verbatim>\<open>read()\<close> both return, \<open>absent\<close> says that \<^verbatim>\<open>adb.read_file\<close> raises
  \<^verbatim>\<open>FileNotFoundError\<close> for it.
\<close>

definition fetched :: "adb \<Rightarrow> ppath \<Rightarrow> string \<Rightarrow> bytes option" where
  "fetched adb database suffix =
     (case remote_file database suffix of
        Inl e \<Rightarrow> None
      | Inr rf \<Rightarrow>
          (case adb rf of Inr (Inr data) \<Rightarrow> Some data | Inr (Inl e) \<Rightarrow> None | Inl e \<Rightarrow> None))"

definition absent :: "adb \<Rightarrow> ppath \<Rightarrow> string \<Rightarrow> bool" where
  "absent adb database suffix =
     (case remote_file database suffix of
        Inl e \<Rightarrow> False
      | Inr rf \<Rightarrow> (case adb rf of Inl e \<Rightarrow> is_FileNotFoundError e | Inr c \<Rightarrow> False))"

text \<open>
  Example inputs for the concrete runs below: a device that holds the database
  \<open>/data/accounts.db\<close> (three bytes) and no side file, a device that holds nothing, a
  local system whose writes succeed, a \<^verbatim>\<open>sqlite3\<close> that connects, and an empty world.
\<close>

definition example_adb :: adb where
  "example_adb p =
     (if path_str p = ''/data/accounts.db'' then Inr (Inr [1, 2, 3])
      else Inl (FileNotFoundError (path_str p)))"

definition empty_adb :: adb where
  "empty_adb p = Inl (FileNotFoundError (path_str p))"

definition example_os :: local_os where
  "example_os = \<lparr>mkdtemp = ''/tmp/tmp0'', write_fault = (\<lambda>n. None)\<rparr>"

definition example_sqlite3 :: sqlite3 where
  "example_sqlite3 p = None"

definition example_world :: world where
  "example_world = \<lparr>localfs = Map.empty, connections = [], events = []\<rparr>"

subsection \<open>Ephemeral disclosure renderer\<close>

text \<open>
  \<^verbatim>\<open>json.dumps(uris, indent=12)\<close> for a list of strings, as the standard encoder
  writes it. A string is encoded by \<^verbatim>\<open>encode_basestring_ascii\<close>: between double
  quotes, the backslash and the double quote behind a backslash, the other characters
  from the space to the tilde as they are, backspace, form feed, newline, carriage return
  and tab by their short escapes, and every other character as \<open>\u00XX\<close> with two
  lower-case hexadecimal digits. The empty list is \<open>[]\<close>; otherwise each item stands
  on a line of its own behind twelve spaces, items are separated by a comma, and the
  closing bracket stands on a line of its own with no indentation.
\<close>

definition hex_digit :: "nat \<Rightarrow> char" where
  "hex_digit d = ''0123456789abcdef'' ! (d mod 16)"

definition json_escape :: "char \<Rightarrow> string" where
  "json_escape c =
     (if c = CHR 0x5C then [CHR 0x5C, CHR 0x5C]
      else if c = CHR 0x22 then [CHR 0x5C, CHR 0x22]
      else if (0x20::nat) \<le> of_char c \<and> of_char c \<le> (0x7E::nat) then [c]
      else if c = CHR 0x08 then [CHR 0x5C, CHR ''b'']
      else if c = CHR 0x0C then [CHR 0x5C, CHR ''f'']
      else if c = CHR 0x0A then [CHR 0x5C, CHR ''n'']
      else if c = CHR 0x0D then [CHR 0x5C, CHR ''r'']
      else if c = CHR 0x09 then [CHR 0x5C, CHR ''t'']
      else [CHR 0x5C, CHR ''u'', CHR ''0'', CHR ''0'',
            hex_digit (of_char c div 16), hex_digit (of_char c mod 16)])"

definition encode_basestring_ascii :: "string \<Rightarrow> string" where
  "encode_basestring_ascii s = [CHR 0x22] @ concat (map json_escape s) @ [CHR 0x22]"

definition newline_indent :: string where
  "newline_indent = CHR 0x0A # replicate 12 (CHR '' '')"

definition json_dumps :: "string list \<Rightarrow> string" where
  "json_dumps xs =
     (case xs of
        [] \<Rightarrow> ''[]''
      | x # rest \<Rightarrow>
          ''['' @ newline_indent @ encode_basestring_ascii x
          @ concat (map (\<lambda>v. '','' @ newline_indent @ encode_basestring_ascii v) rest)
          @ [CHR 0x0A] @ '']'')"

text \<open>
  \<^verbatim>\<open>.replace("]", "        ]")\<close>: every closing bracket of the text gets eight spaces
  in front of it.
\<close>

definition replace_bracket :: "string \<Rightarrow> string" where
  "replace_bracket s =
     concat (map (\<lambda>c. if c = CHR '']'' then replicate 8 (CHR '' '') @ '']'' else [c]) s)"

text \<open>
  \<^verbatim>\<open>sorted([a.as_uri(prepend_issuer) for a in accounts])\<close>. The account model is not
  part of this module: \<open>as_uri\<close> is a parameter (an \<^verbatim>\<open>as_uri\<close> that raises ends the
  call before any file exists). Python compares strings code point by code point, a proper
  prefix first, which is the order of \<^typ>\<open>string\<close> here; the sorted list of a total
  order does not depend on the algorithm.
\<close>

definition sorted_uris :: "('a \<Rightarrow> bool \<Rightarrow> string) \<Rightarrow> 'a list \<Rightarrow> bool \<Rightarrow> string list" where
  "sorted_uris as_uri accounts prepend_issuer = sort (map (\<lambda>a. as_uri a prepend_issuer) accounts)"

text \<open>The text that takes the place of \<^verbatim>\<open>%s\<close> behind \<^verbatim>\<open>const ACCOUNTS =\<close>.\<close>

definition embedded_array :: "('a \<Rightarrow> bool \<Rightarrow> string) \<Rightarrow> 'a list \<Rightarrow> bool \<Rightarrow> string" where
  "embedded_array as_uri accounts prepend_issuer =
     replace_bracket (json_dumps (sorted_uris as_uri accounts prepend_issuer))"

text \<open>
  The system the renderer runs on: the page template as the text before and the text
  after its one \<^verbatim>\<open>%s\<close>; the name \<^verbatim>\<open>NamedTemporaryFile\<close> picks; the process's umask;
  and, for each step between the creation of the file and its removal, the exception it
  raises, if any: writing the page inside the \<^verbatim>\<open>with\<close> block (the write itself or the
  close that flushes it, for instance on a full disk), \<^verbatim>\<open>webbrowser.open\<close>, and
  \<^verbatim>\<open>time.sleep\<close> (an interrupt). \<^verbatim>\<open>os.remove\<close> is taken to remove the file.
\<close>

record display_os =
  page_head :: string
  page_tail :: string
  temp_name :: string
  umask :: "32 word"
  html_write_fault :: "exn option"
  open_fault :: "exn option"
  sleep_fault :: "exn option"

record disk_file =
  mode :: "32 word"
  content :: string

type_synonym files = "string \<rightharpoonup> disk_file"

definition accounts_html ::
  "display_os \<Rightarrow> ('a \<Rightarrow> bool \<Rightarrow> string) \<Rightarrow> 'a list \<Rightarrow> bool \<Rightarrow> string" where
  "accounts_html os as_uri accounts prepend_issuer =
     page_head os @ embedded_array as_uri accounts prepend_issuer @ page_tail os"

text \<open>
  \<^verbatim>\<open>NamedTemporaryFile(delete=False, suffix='.html')\<close> creates the file with
  \<^verbatim>\<open>os.open(name, flags, 0o600)\<close>: the mode is \<open>0o600 = 0x180\<close> less the bits of the
  umask. The file is empty and, with \<^verbatim>\<open>delete=False\<close>, stays when it is closed.
\<close>

definition NamedTemporaryFile :: "display_os \<Rightarrow> files \<Rightarrow> files" where
  "NamedTemporaryFile os fs =
     fs(temp_name os \<mapsto> \<lparr>mode = 0x180 AND NOT (umask os), content = []\<rparr>)"

text \<open>
  \<^verbatim>\<open>with NamedTemporaryFile(...) as temp_html_file:\<close>
  \<^verbatim>\<open>temp_html_file.write(accounts_html.encode('utf-8'))\<close>. The page is ASCII, so its
  bytes are its characters. When the write raises, the exception leaves the \<^verbatim>\<open>with\<close>
  block, which closes the file and, with \<^verbatim>\<open>delete=False\<close>, keeps it; what part of the
  page has reached the disk by then is not modelled.
\<close>

definition write_html :: "display_os \<Rightarrow> string \<Rightarrow> files \<Rightarrow> exn option \<times> files" where
  "write_html os html fs =
     (case html_write_fault os of
        Some e \<Rightarrow> (Some e, fs)
      | None \<Rightarrow>
          (None, (case fs (temp_name os) of
                    None \<Rightarrow> fs
                  | Some f \<Rightarrow> fs(temp_name os \<mapsto> f\<lparr>content := html\<rparr>))))"

text \<open>
  \<^verbatim>\<open>try: webbrowser.open(...); time.sleep(10)\<close> \<^verbatim>\<open>finally: os.remove(name)\<close>:
  the first step that raises ends the \<^verbatim>\<open>try\<close> block, and the file is removed either way.
  The \<^verbatim>\<open>try\<close> statement comes after the \<^verbatim>\<open>with\<close> block: an exception of the write
  never enters it.
\<close>

definition open_and_wait :: "display_os \<Rightarrow> exn option" where
  "open_and_wait os =
     (case open_fault os of
        Some e \<Rightarrow> Some e
      | None \<Rightarrow> sleep_fault os)"

definition display_qr_codes ::
  "display_os \<Rightarrow> ('a \<Rightarrow> bool \<Rightarrow> string) \<Rightarrow> 'a list \<Rightarrow> bool \<Rightarrow> files \<Rightarrow> exn option \<times> files" where
  "display_qr_codes os as_uri accounts prepend_issuer fs =
     (let html = accounts_html os as_uri accounts prepend_issuer;
          fs1 = NamedTemporaryFile os fs
      in (case write_html os html fs1 of
            (Some e, fs2) \<Rightarrow> (Some e, fs2)
          | (None, fs2) \<Rightarrow> (open_and_wait os, fs2(temp_name os := None))))"

text \<open>
  An example system for the concrete runs of the renderer: a two-piece stand-in for the
  page template, umask \<open>0o022 = 0x12\<close>, no failing step.
\<close>

definition example_display :: display_os where
  "example_display =
     \<lparr>page_head = ''const ACCOUNTS = '', page_tail = ''; render(ACCOUNTS)'',
      temp_name = ''/tmp/tmpq7.html'', umask = 0x12,
      html_write_fault = None, open_fault = None, sleep_fault = None\<rparr>"

section \<open>Properties\<close>

subsection \<open>SQL literal escaper\<close>

lemma table_lookup_is_spec_substitution:
  "(case map_of SQL_BACKSLASHED_CHARS c of Some r \<Rightarrow> r | None \<Rightarrow> [c]) = spec_substitution c"
  by (simp add: SQL_BACKSLASHED_CHARS_def spec_substitution_def)

lemma translate_table_spec:
  "translate SQL_BACKSLASHED_CHARS text = concat (map spec_substitution text)"
  by (simp add: translate_def table_lookup_is_spec_substitution)

lemma spec_substitution_unchanged_iff:
  "spec_substitution c = [c] \<longleftrightarrow>
     c \<notin> {CHR 0x00, CHR 0x08, CHR 0x09, CHR 0x1A, CHR 0x0A, CHR 0x0D, CHR 0x5C, CHR 0x25, CHR 0x27}"
  by (simp add: spec_substitution_def)

text \<open>
  Claim C6. \<^verbatim>\<open>escape_sql_string\<close> has no failing branch: for every string it returns
  the input between single quotes with each character replaced as the specification's
  table says (the dictionary lookup of the code and the table of the specification agree
  on every character), and a character is left as it is exactly when it is none of the
  nine characters of the table.
\<close>

theorem escape_sql_string_table:
  "escape_sql_string text = [CHR 0x27] @ concat (map spec_substitution text) @ [CHR 0x27]
   \<and> (spec_substitution c = [c] \<longleftrightarrow>
        c \<notin> {CHR 0x00, CHR 0x08, CHR 0x09, CHR 0x1A, CHR 0x0A, CHR 0x0D,
             CHR 0x5C, CHR 0x25, CHR 0x27})"
  by (simp only: escape_sql_string_def translate_table_spec spec_substitution_unchanged_iff
      simp_thms)

theorem escape_sql_string_table_witness:
  "escape_sql_string [CHR ''a'', CHR 0x27, CHR 0x0A, CHR ''%''] =
     [CHR 0x27, CHR ''a'', CHR 0x27, CHR 0x27, CHR 0x5C, CHR ''n'', CHR 0x5C, CHR ''%'', CHR 0x27]"
  by (simp add: escape_sql_string_table spec_substitution_def)

text \<open>
  What SQLite makes of the escaped text: it is always one well-formed string literal, and
  its value is the input with every backslash substitution still in it.
\<close>

lemma literal_body_step:
  "literal_body (spec_substitution c @ r # rs) =
     (case literal_body (r # rs) of
        None \<Rightarrow> None
      | Some (v, t) \<Rightarrow> Some (sqlite_reads c @ v, t))"
proof (cases "literal_body (r # rs)")
  case None
  then show ?thesis by (simp add: spec_substitution_def sqlite_reads_def)
next
  case (Some a)
  obtain v t where "a = (v, t)" by (cases a)
  with Some show ?thesis by (simp add: spec_substitution_def sqlite_reads_def)
qed

lemma literal_body_escaped:
  "literal_body (concat (map spec_substitution s) @ [CHR 0x27]) =
     Some (concat (map sqlite_reads s), [])"
proof (induction s)
  case Nil
  show ?case by simp
next
  case (Cons c s)
  obtain r rs where rest: "concat (map spec_substitution s) @ [CHR 0x27] = r # rs"
    by (cases "concat (map spec_substitution s) @ [CHR 0x27]") auto
  have "literal_body (spec_substitution c @ r # rs) =
          Some (sqlite_reads c @ concat (map sqlite_reads s), [])"
    using Cons.IH by (simp only: literal_body_step rest option.case prod.case)
  then show ?case by (simp add: rest)
qed

lemma sqlite_reads_escaped:
  "sqlite_string_literal (escape_sql_string s) = Some (concat (map sqlite_reads s))"
  by (simp add: sqlite_string_literal_def escape_sql_string_def translate_table_spec
      literal_body_escaped)

lemma length_sqlite_reads:
  "length (sqlite_reads c) =
     (if c \<in> {CHR 0x00, CHR 0x08, CHR 0x09, CHR 0x1A, CHR 0x0A, CHR 0x0D, CHR 0x5C, CHR 0x25}
      then 2 else 1)"
  by (simp add: sqlite_reads_def spec_substitution_def)

lemma sqlite_reads_same:
  "c \<notin> {CHR 0x00, CHR 0x08, CHR 0x09, CHR 0x1A, CHR 0x0A, CHR 0x0D, CHR 0x5C, CHR 0x25}
   \<Longrightarrow> sqlite_reads c = [c]"
  by (simp add: sqlite_reads_def spec_substitution_def)

lemma length_concat_sqlite_reads:
  "length (concat (map sqlite_reads s)) =
     length s + length (filter (\<lambda>c. c \<in> {CHR 0x00, CHR 0x08, CHR 0x09, CHR 0x1A, CHR 0x0A,
                                          CHR 0x0D, CHR 0x5C, CHR 0x25}) s)"
  by (induction s) (simp_all only: list.map concat.simps length_append length_sqlite_reads
      filter.simps list.size split: if_splits, simp_all)

text \<open>
  The escaped text reads back as the input exactly when the input holds none of the eight
  characters that get a backslash.
\<close>

lemma sqlite_round_trip_iff:
  "sqlite_string_literal (escape_sql_string s) = Some s \<longleftrightarrow>
     set s \<inter> {CHR 0x00, CHR 0x08, CHR 0x09, CHR 0x1A, CHR 0x0A, CHR 0x0D, CHR 0x5C, CHR 0x25} = {}"
proof
  assume "sqlite_string_literal (escape_sql_string s) = Some s"
  then have "concat (map sqlite_reads s) = s"
    by (simp add: sqlite_reads_escaped)
  then have "length (concat (map sqlite_reads s)) = length s"
    by simp
  then have "filter (\<lambda>c. c \<in> {CHR 0x00, CHR 0x08, CHR 0x09, CHR 0x1A, CHR 0x0A,
                              CHR 0x0D, CHR 0x5C, CHR 0x25}) s = []"
    by (simp only: length_concat_sqlite_reads) simp
  then show "set s \<inter> {CHR 0x00, CHR 0x08, CHR 0x09, CHR 0x1A, CHR 0x0A, CHR 0x0D,
                       CHR 0x5C, CHR 0x25} = {}"
    by (simp only: filter_empty_conv) blast
next
  assume none: "set s \<inter> {CHR 0x00, CHR 0x08, CHR 0x09, CHR 0x1A, CHR 0x0A, CHR 0x0D,
                            CHR 0x5C, CHR 0x25} = {}"
  have "\<And>c. c \<in> set s \<Longrightarrow> sqlite_reads c = [c]"
    using none by (intro sqlite_reads_same) blast
  then have "concat (map sqlite_reads s) = s"
    by (induction s) simp_all
  then show "sqlite_string_literal (escape_sql_string s) = Some s"
    by (simp add: sqlite_reads_escaped)
qed

text \<open>
  Claim C5 (the escaper round-trips through SQL literal parsing), at the input \<open>%\<close>:
  the escaped text is \<open>'\%'\<close>, which SQLite reads as the two characters backslash and
  percent, not as the one character that went in.
\<close>

theorem escape_sql_string_percent_not_round_trip:
  "escape_sql_string ''%'' = [CHR 0x27, CHR 0x5C, CHR ''%'', CHR 0x27]
   \<and> sqlite_string_literal (escape_sql_string ''%'') = Some [CHR 0x5C, CHR ''%'']
   \<and> sqlite_string_literal (escape_sql_string ''%'') \<noteq> Some ''%''"
  by (simp add: sqlite_string_literal_def escape_sql_string_def translate_def
      SQL_BACKSLASHED_CHARS_def)

subsection \<open>POSIX paths\<close>

lemma str_split_no_sep: "w \<in> set (str_split sep s) \<Longrightarrow> sep \<notin> set w"
proof (induction s arbitrary: w)
  case Nil
  then show ?case by simp
next
  case (Cons c s)
  show ?case
  proof (cases "c = sep")
    case True
    with Cons show ?thesis by auto
  next
    case False
    show ?thesis
    proof (cases "str_split sep s")
      case Nil
      with False Cons.prems show ?thesis by simp
    next
      case (Cons v vs)
      with False Cons.prems Cons.IH show ?thesis by auto
    qed
  qed
qed

lemma parts_PurePosixPath:
  "x \<in> set (parts (PurePosixPath s)) \<Longrightarrow> x \<noteq> [] \<and> x \<noteq> ''.'' \<and> CHR ''/'' \<notin> set x"
  by (auto simp: PurePosixPath_def split: prod.splits dest: str_split_no_sep)

lemma path_name_in_parts: "path_name p \<noteq> [] \<Longrightarrow> parts p \<noteq> [] \<and> path_name p = last (parts p)"
  by (cases "parts p") (simp_all add: path_name_def)

lemma path_name_PurePosixPath:
  assumes "path_name (PurePosixPath s) \<noteq> []"
  shows "path_name (PurePosixPath s) \<noteq> ''.'' \<and> CHR ''/'' \<notin> set (path_name (PurePosixPath s))"
proof -
  have "path_name (PurePosixPath s) \<in> set (parts (PurePosixPath s))"
    using path_name_in_parts [OF assms] by simp
  then show ?thesis using parts_PurePosixPath by blast
qed

lemma remote_file_PurePosixPath:
  assumes "path_name (PurePosixPath s) \<noteq> []" and "CHR ''/'' \<notin> set suffix"
  shows "remote_file (PurePosixPath s) suffix =
           Inr ((PurePosixPath s)\<lparr>parts := butlast (parts (PurePosixPath s))
                                        @ [path_name (PurePosixPath s) @ suffix]\<rparr>)"
proof -
  let ?n = "path_name (PurePosixPath s)"
  have n: "?n \<noteq> ''.''" "CHR ''/'' \<notin> set ?n"
    using path_name_PurePosixPath [OF assms(1)] by simp_all
  have "?n @ suffix \<noteq> ''.''"
  proof
    assume eq: "?n @ suffix = ''.''"
    then have "length ?n + length suffix = 1" by (metis length_append length_Cons list.size(3) One_nat_def add.right_neutral add_Suc_right)
    with assms(1) have "suffix = []" by (cases ?n; cases suffix) auto
    with eq n(1) show False by simp
  qed
  with assms n show ?thesis
    by (simp add: remote_file_def with_name_def)
qed

lemma join_append_last:
  "ps \<noteq> [] \<Longrightarrow> join sep (butlast ps @ [last ps @ suffix]) = join sep ps @ suffix"
  by (induction sep ps rule: join.induct) auto

lemma path_str_with_suffix:
  assumes "path_name p \<noteq> []"
  shows "path_str (p\<lparr>parts := butlast (parts p) @ [path_name p @ suffix]\<rparr>) = path_str p @ suffix"
  using path_name_in_parts [OF assms] by (simp add: path_str_def join_append_last)

lemma same_name_same_path:
  assumes "path_name p \<noteq> []"
  shows "p\<lparr>parts := butlast (parts p) @ [path_name p]\<rparr> = p"
  using path_name_in_parts [OF assms] by simp

text \<open>
  Claim C4. For a database path \<open>p\<close> that names a file (its last component is not
  empty), the four remote paths of the loop are \<open>p\<close> itself and \<open>p\<close> with the last
  component followed by \<open>-journal\<close>, \<open>-wal\<close> and \<open>-shm\<close>; written out as strings
  they are the string of \<open>p\<close> with the suffix at its very end, behind any extension.
\<close>

theorem candidate_remote_paths:
  assumes "p = PurePosixPath database" and "path_name p \<noteq> []"
  shows "map (remote_file p) suffixes =
           [Inr p,
            Inr (p\<lparr>parts := butlast (parts p) @ [path_name p @ ''-journal'']\<rparr>),
            Inr (p\<lparr>parts := butlast (parts p) @ [path_name p @ ''-wal'']\<rparr>),
            Inr (p\<lparr>parts := butlast (parts p) @ [path_name p @ ''-shm'']\<rparr>)]
       \<and> map path_str
           [p\<lparr>parts := butlast (parts p) @ [path_name p @ ''-journal'']\<rparr>,
            p\<lparr>parts := butlast (parts p) @ [path_name p @ ''-wal'']\<rparr>,
            p\<lparr>parts := butlast (parts p) @ [path_name p @ ''-shm'']\<rparr>] =
           [path_str p @ ''-journal'', path_str p @ ''-wal'', path_str p @ ''-shm'']"
proof -
  have named: "path_name (PurePosixPath database) \<noteq> []"
    using assms by simp
  have "remote_file p [] = Inr p"
    using remote_file_PurePosixPath [OF named, of "[]"] same_name_same_path [OF assms(2)] assms(1)
    by simp
  moreover have "remote_file p ''-journal'' =
      Inr (p\<lparr>parts := butlast (parts p) @ [path_name p @ ''-journal'']\<rparr>)"
    using remote_file_PurePosixPath [OF named, of "''-journal''"] assms(1) by simp
  moreover have "remote_file p ''-wal'' =
      Inr (p\<lparr>parts := butlast (parts p) @ [path_name p @ ''-wal'']\<rparr>)"
    using remote_file_PurePosixPath [OF named, of "''-wal''"] assms(1) by simp
  moreover have "remote_file p ''-shm'' =
      Inr (p\<lparr>parts := butlast (parts p) @ [path_name p @ ''-shm'']\<rparr>)"
    using remote_file_PurePosixPath [OF named, of "''-shm''"] assms(1) by simp
  ultimately show ?thesis
    by (simp add: suffixes_def path_str_with_suffix [OF assms(2)])
qed

text \<open>The paths of \<open>/data/accounts.db\<close>: the suffix follows \<open>.db\<close>.\<close>

theorem candidate_remote_paths_witness:
  "PurePosixPath ''/data/accounts.db'' = \<lparr>root = ''/'', parts = [''data'', ''accounts.db'']\<rparr>
   \<and> path_name \<lparr>root = ''/'', parts = [''data'', ''accounts.db'']\<rparr> = ''accounts.db''
   \<and> map (remote_file \<lparr>root = ''/'', parts = [''data'', ''accounts.db'']\<rparr>) suffixes =
        [Inr \<lparr>root = ''/'', parts = [''data'', ''accounts.db'']\<rparr>,
         Inr \<lparr>root = ''/'', parts = [''data'', ''accounts.db-journal'']\<rparr>,
         Inr \<lparr>root = ''/'', parts = [''data'', ''accounts.db-wal'']\<rparr>,
         Inr \<lparr>root = ''/'', parts = [''data'', ''accounts.db-shm'']\<rparr>]
   \<and> map path_str
        [\<lparr>root = ''/'', parts = [''data'', ''accounts.db-journal'']\<rparr>,
         \<lparr>root = ''/'', parts = [''data'', ''accounts.db-wal'']\<rparr>,
         \<lparr>root = ''/'', parts = [''data'', ''accounts.db-shm'']\<rparr>] =
        [''/data/accounts.db-journal'', ''/data/accounts.db-wal'', ''/data/accounts.db-shm'']"
proof -
  have p: "PurePosixPath ''/data/accounts.db'' = \<lparr>root = ''/'', parts = [''data'', ''accounts.db'']\<rparr>"
    by (simp add: PurePosixPath_def splitroot_def)
  have n: "path_name \<lparr>root = ''/'', parts = [''data'', ''accounts.db'']\<rparr> \<noteq> []"
    by (simp add: path_name_def)
  from candidate_remote_paths [OF p [symmetric] n] p show ?thesis
    by (simp add: path_name_def path_str_def)
qed

text \<open>
  A path without a last component (\<open>/\<close>, the empty string, \<open>.\<close>) names no file:
  \<^verbatim>\<open>with_name\<close> raises \<^verbatim>\<open>ValueError\<close> before anything is read.
\<close>

lemma nameless_paths:
  "path_name (PurePosixPath ''/'') = [] \<and> path_name (PurePosixPath '''') = []
   \<and> path_name (PurePosixPath ''.'') = []
   \<and> remote_file (PurePosixPath ''/'') [] = Inl (ValueError ''has an empty name'')"
  by (simp add: PurePosixPath_def splitroot_def path_name_def remote_file_def with_name_def)

subsection \<open>Remote snapshot loader\<close>

lemma write_bytes_frame:
  "write_bytes os t n data w = Inr w' \<Longrightarrow>
     connections w' = connections w \<and> events w' = events w @ [Write_bytes t n]"
  by (auto simp: write_bytes_def split: option.splits)

lemma write_bytes_localfs:
  "write_bytes os t n data w = Inr w' \<Longrightarrow> localfs w t = Some files \<Longrightarrow>
     localfs w' = (localfs w)(t \<mapsto> files(n \<mapsto> data))"
  by (auto simp: write_bytes_def split: option.splits)

lemma pull_files_cases:
  assumes "pull_files adb os db t (s # ss) w = (r, w')"
  obtains (raised) e where "r = Some e" "w' = w"
  | (skipped) "s \<noteq> []" "absent adb db s" "pull_files adb os db t ss w = (r, w')"
  | (stored) rf data w1 where "remote_file db s = Inr rf" "adb rf = Inr (Inr data)"
      "write_bytes os t (path_name rf) data w = Inr w1" "pull_files adb os db t ss w1 = (r, w')"
  using assms by (auto simp: absent_def split: sum.splits if_splits)

lemma remote_file_name:
  "remote_file db s = Inr rf \<Longrightarrow> path_name rf = path_name db @ s"
  by (auto simp: remote_file_def with_name_def path_name_def split: if_splits list.splits)

lemma pull_files_stores:
  assumes "pull_files adb os db t ss w = (None, w')" and "localfs w t = Some files"
    and "distinct ss"
  shows "\<exists>files'. localfs w' = (localfs w)(t \<mapsto> files')
          \<and> (\<forall>s\<in>set ss. files' (path_name db @ s) =
                (case fetched adb db s of Some data \<Rightarrow> Some data | None \<Rightarrow> files (path_name db @ s)))
          \<and> (\<forall>n. n \<notin> (\<lambda>s. path_name db @ s) ` set ss \<longrightarrow> files' n = files n)"
  using assms
proof (induction ss arbitrary: w files)
  case Nil
  then have "localfs w' = (localfs w)(t \<mapsto> files)" by auto
  then show ?case by auto
next
  case (Cons s ss)
  from Cons.prems(3) have fresh: "path_name db @ s \<notin> (\<lambda>s. path_name db @ s) ` set ss"
    and dist: "distinct ss" by auto
  from Cons.prems(1) show ?case
  proof (cases rule: pull_files_cases)
    case (raised e)
    then show ?thesis by simp
  next
    case skipped
    from Cons.IH [OF skipped(3) Cons.prems(2) dist] obtain files' where
      f: "localfs w' = (localfs w)(t \<mapsto> files')"
      "\<forall>s\<in>set ss. files' (path_name db @ s) =
          (case fetched adb db s of Some data \<Rightarrow> Some data | None \<Rightarrow> files (path_name db @ s))"
      "\<forall>n. n \<notin> (\<lambda>s. path_name db @ s) ` set ss \<longrightarrow> files' n = files n"
      by blast
    from skipped(2) have "fetched adb db s = None"
      by (auto simp: absent_def fetched_def split: sum.splits)
    with f fresh have "files' (path_name db @ s) =
        (case fetched adb db s of Some data \<Rightarrow> Some data | None \<Rightarrow> files (path_name db @ s))"
      by simp
    with f show ?thesis by auto
  next
    case (stored rf data w1)
    let ?n = "path_name db @ s"
    from stored(1) have n: "path_name rf = ?n" by (rule remote_file_name)
    from write_bytes_localfs [OF stored(3) Cons.prems(2)] n
    have w1: "localfs w1 = (localfs w)(t \<mapsto> files(?n \<mapsto> data))" by simp
    then have "localfs w1 t = Some (files(?n \<mapsto> data))" by simp
    from Cons.IH [OF stored(4) this dist] obtain files' where
      f: "localfs w' = (localfs w1)(t \<mapsto> files')"
      "\<forall>s\<in>set ss. files' (path_name db @ s) =
          (case fetched adb db s of Some data' \<Rightarrow> Some data'
           | None \<Rightarrow> (files(?n \<mapsto> data)) (path_name db @ s))"
      "\<forall>n. n \<notin> (\<lambda>s. path_name db @ s) ` set ss \<longrightarrow> files' n = (files(?n \<mapsto> data)) n"
      by blast
    from stored(1,2) have fs: "fetched adb db s = Some data"
      by (simp add: fetched_def)
    from f(1) w1 have 1: "localfs w' = (localfs w)(t \<mapsto> files')" by simp
    from f(3) fresh fs have 2: "files' ?n =
        (case fetched adb db s of Some data \<Rightarrow> Some data | None \<Rightarrow> files ?n)"
      by simp
    have 3: "\<forall>s'\<in>set ss. files' (path_name db @ s') =
          (case fetched adb db s' of Some data' \<Rightarrow> Some data' | None \<Rightarrow> files (path_name db @ s'))"
    proof
      fix s' assume s': "s' \<in> set ss"
      with Cons.prems(3) have "path_name db @ s' \<noteq> ?n" by auto
      with f(2) s' show "files' (path_name db @ s') =
          (case fetched adb db s' of Some data' \<Rightarrow> Some data' | None \<Rightarrow> files (path_name db @ s'))"
        by (auto split: option.splits)
    qed
    have 4: "\<forall>n. n \<notin> (\<lambda>s. path_name db @ s) ` set (s # ss) \<longrightarrow> files' n = files n"
      using f(3) by auto
    from 1 2 3 4 show ?thesis by auto
  qed
qed

lemma pull_files_frame:
  "pull_files adb os db t ss w = (r, w') \<Longrightarrow>
     connections w' = connections w \<and> (\<exists>ns. events w' = events w @ map (Write_bytes t) ns)"
proof (induction ss arbitrary: w)
  case Nil
  then show ?case by simp
next
  case (Cons s ss)
  from Cons.prems show ?case
  proof (cases rule: pull_files_cases)
    case (raised e)
    then show ?thesis by simp
  next
    case skipped
    then show ?thesis by (intro Cons.IH)
  next
    case (stored rf data w1)
    from Cons.IH [OF stored(4)] obtain ns where
      "connections w' = connections w1" "events w' = events w1 @ map (Write_bytes t) ns"
      by blast
    with write_bytes_frame [OF stored(3)]
    have "connections w' = connections w"
      "events w' = events w @ map (Write_bytes t) (path_name rf # ns)"
      by simp_all
    then show ?thesis by blast
  qed
qed

lemma closing_connect_frame:
  "closing_connect sqlite3 p body w = (r, w') \<Longrightarrow>
     connections w' = connections w \<and>
     (events w' = events w \<or> events w' = events w @ [Connect p, Yield p, Close p])"
  by (auto simp: closing_connect_def close_def Let_def split: option.splits prod.splits)

lemma loader_propagates:
  assumes "pull_files adb os (PurePosixPath database) (mkdtemp os) suffixes
             (w\<lparr>localfs := (localfs w)(mkdtemp os \<mapsto> Map.empty),
                events := events w @ [Mkdtemp (mkdtemp os)]\<rparr>) = (Some e, w2)"
  shows "fst (open_remote_sqlite_database adb database sqlite3 os body w) = Inl e"
  using assms by (simp add: open_remote_sqlite_database_def Let_def)

lemma primary_failure:
  assumes "path_name (PurePosixPath database) \<noteq> []" and "adb (PurePosixPath database) = Inl e"
  shows "pull_files adb os (PurePosixPath database) t suffixes w = (Some e, w)"
proof -
  have "remote_file (PurePosixPath database) [] = Inr (PurePosixPath database)"
    using remote_file_PurePosixPath [OF assms(1), of "[]"] same_name_same_path [OF assms(1)]
    by simp
  with assms(2) show ?thesis by (simp add: suffixes_def)
qed

lemma pull_files_skip:
  "absent adb db s \<Longrightarrow> s \<noteq> [] \<Longrightarrow>
     pull_files adb os db t (s # ss) w = pull_files adb os db t ss w"
  by (auto simp: absent_def split: sum.splits)

lemma only_primary_pulled:
  assumes named: "path_name (PurePosixPath database) \<noteq> []"
    and primary: "fetched adb (PurePosixPath database) [] = Some data"
    and sides: "absent adb (PurePosixPath database) ''-journal''"
      "absent adb (PurePosixPath database) ''-wal''"
      "absent adb (PurePosixPath database) ''-shm''"
    and local: "write_fault os (path_name (PurePosixPath database)) = None"
    and dir: "localfs w t = Some Map.empty"
  shows "pull_files adb os (PurePosixPath database) t suffixes w =
           (None, w\<lparr>localfs := (localfs w)(t \<mapsto> [path_name (PurePosixPath database) \<mapsto> data]),
                     events := events w @ [Write_bytes t (path_name (PurePosixPath database))]\<rparr>)"
proof -
  let ?db = "PurePosixPath database"
  have rf: "remote_file ?db [] = Inr ?db"
    using remote_file_PurePosixPath [OF named, of "[]"] same_name_same_path [OF named]
    by simp
  with primary have adb: "adb ?db = Inr (Inr data)"
    by (simp add: fetched_def split: sum.splits)
  have wr: "write_bytes os t (path_name ?db) data w =
      Inr (w\<lparr>localfs := (localfs w)(t \<mapsto> [path_name ?db \<mapsto> data]),
             events := events w @ [Write_bytes t (path_name ?db)]\<rparr>)"
    using local dir by (simp add: write_bytes_def)
  have "pull_files adb os ?db t suffixes w =
      pull_files adb os ?db t [''-journal'', ''-wal'', ''-shm'']
        (w\<lparr>localfs := (localfs w)(t \<mapsto> [path_name ?db \<mapsto> data]),
           events := events w @ [Write_bytes t (path_name ?db)]\<rparr>)"
    by (simp add: suffixes_def rf adb wr)
  also have "\<dots> = pull_files adb os ?db t [''-wal'', ''-shm'']
        (w\<lparr>localfs := (localfs w)(t \<mapsto> [path_name ?db \<mapsto> data]),
           events := events w @ [Write_bytes t (path_name ?db)]\<rparr>)"
    by (rule pull_files_skip [OF sides(1)]) simp
  also have "\<dots> = pull_files adb os ?db t [''-shm'']
        (w\<lparr>localfs := (localfs w)(t \<mapsto> [path_name ?db \<mapsto> data]),
           events := events w @ [Write_bytes t (path_name ?db)]\<rparr>)"
    by (rule pull_files_skip [OF sides(2)]) simp
  also have "\<dots> = pull_files adb os ?db t []
        (w\<lparr>localfs := (localfs w)(t \<mapsto> [path_name ?db \<mapsto> data]),
           events := events w @ [Write_bytes t (path_name ?db)]\<rparr>)"
    by (rule pull_files_skip [OF sides(3)]) simp
  finally show ?thesis by simp
qed

text \<open>The example device and system, evaluated.\<close>

lemma example_path:
  "PurePosixPath ''/data/accounts.db'' = \<lparr>root = ''/'', parts = [''data'', ''accounts.db'']\<rparr>"
  by (simp add: PurePosixPath_def splitroot_def)

lemma example_remote_files:
  "remote_file \<lparr>root = ''/'', parts = [''data'', ''accounts.db'']\<rparr> [] =
     Inr \<lparr>root = ''/'', parts = [''data'', ''accounts.db'']\<rparr>"
  "remote_file \<lparr>root = ''/'', parts = [''data'', ''accounts.db'']\<rparr> ''-journal'' =
     Inr \<lparr>root = ''/'', parts = [''data'', ''accounts.db-journal'']\<rparr>"
  "remote_file \<lparr>root = ''/'', parts = [''data'', ''accounts.db'']\<rparr> ''-wal'' =
     Inr \<lparr>root = ''/'', parts = [''data'', ''accounts.db-wal'']\<rparr>"
  "remote_file \<lparr>root = ''/'', parts = [''data'', ''accounts.db'']\<rparr> ''-shm'' =
     Inr \<lparr>root = ''/'', parts = [''data'', ''accounts.db-shm'']\<rparr>"
  by (simp_all add: remote_file_def with_name_def path_name_def)

lemma example_os_fields:
  "mkdtemp example_os = ''/tmp/tmp0''" "write_fault example_os n = None"
  by (simp_all add: example_os_def)

lemma example_world_fields:
  "localfs example_world = Map.empty" "connections example_world = []"
  "events example_world = []"
  by (simp_all add: example_world_def)

lemma example_fetched:
  "path_name (PurePosixPath ''/data/accounts.db'') = ''accounts.db''"
  "fetched example_adb (PurePosixPath ''/data/accounts.db'') [] = Some [1, 2, 3]"
  "absent example_adb (PurePosixPath ''/data/accounts.db'') ''-journal''"
  "absent example_adb (PurePosixPath ''/data/accounts.db'') ''-wal''"
  "absent example_adb (PurePosixPath ''/data/accounts.db'') ''-shm''"
  by (simp_all add: example_path example_remote_files fetched_def absent_def example_adb_def
      path_str_def path_name_def)

lemma example_sides_not_fetched:
  "fetched example_adb (PurePosixPath ''/data/accounts.db'') ''-journal'' = None"
  "fetched example_adb (PurePosixPath ''/data/accounts.db'') ''-wal'' = None"
  "fetched example_adb (PurePosixPath ''/data/accounts.db'') ''-shm'' = None"
  by (simp_all add: example_path example_remote_files fetched_def example_adb_def path_str_def)

text \<open>
  Claim C1. In every pass of the loop: when \<^verbatim>\<open>adb.read_file\<close> raises
  \<^verbatim>\<open>FileNotFoundError\<close> for the primary file (the empty suffix), the loop is left by that
  very exception; when it raises \<^verbatim>\<open>FileNotFoundError\<close> for a side file, the pass does
  nothing and the loop goes on with the remaining suffixes; when it raises any other
  exception, for any of the files, the loop is left by that exception. The not-found
  failure of the device bridge is the one \<^verbatim>\<open>adb.read_file\<close> raises; an exception of
  the returned stream's \<^verbatim>\<open>read()\<close> is raised in the \<^verbatim>\<open>else\<close> clause and leaves the
  loop whatever its class. An exception that leaves the loop is the result of the whole
  call, unchanged; in particular a failing read of the primary file of a named database
  path is the result of the call.
\<close>

theorem read_failures:
  "(remote_file db [] = Inr rf \<and> adb rf = Inl e \<and> is_FileNotFoundError e \<longrightarrow>
      pull_files adb os db t ([] # rest) w = (Some e, w))
   \<and> (remote_file db suffix = Inr rf \<and> adb rf = Inl e \<and> is_FileNotFoundError e \<and> suffix \<noteq> [] \<longrightarrow>
      pull_files adb os db t (suffix # rest) w = pull_files adb os db t rest w)
   \<and> (remote_file db suffix = Inr rf \<and> adb rf = Inl e \<and> \<not> is_FileNotFoundError e \<longrightarrow>
      pull_files adb os db t (suffix # rest) w = (Some e, w))
   \<and> (remote_file db suffix = Inr rf \<and> adb rf = Inr (Inl e) \<longrightarrow>
      pull_files adb os db t (suffix # rest) w = (Some e, w))
   \<and> (pull_files adb os (PurePosixPath database) (mkdtemp os) suffixes
         (w\<lparr>localfs := (localfs w)(mkdtemp os \<mapsto> Map.empty),
            events := events w @ [Mkdtemp (mkdtemp os)]\<rparr>) = (Some e, w2) \<longrightarrow>
      fst (open_remote_sqlite_database adb database sqlite3 os body w) = Inl e)
   \<and> (path_name (PurePosixPath database) \<noteq> [] \<and> adb (PurePosixPath database) = Inl e \<longrightarrow>
      fst (open_remote_sqlite_database adb database sqlite3 os body w) = Inl e)"
proof (intro conjI impI)
  assume "remote_file db [] = Inr rf \<and> adb rf = Inl e \<and> is_FileNotFoundError e"
  then show "pull_files adb os db t ([] # rest) w = (Some e, w)" by simp
next
  assume "remote_file db suffix = Inr rf \<and> adb rf = Inl e \<and> is_FileNotFoundError e \<and> suffix \<noteq> []"
  then show "pull_files adb os db t (suffix # rest) w = pull_files adb os db t rest w" by simp
next
  assume "remote_file db suffix = Inr rf \<and> adb rf = Inl e \<and> \<not> is_FileNotFoundError e"
  then show "pull_files adb os db t (suffix # rest) w = (Some e, w)" by simp
next
  assume "remote_file db suffix = Inr rf \<and> adb rf = Inr (Inl e)"
  then show "pull_files adb os db t (suffix # rest) w = (Some e, w)" by simp
next
  assume "pull_files adb os (PurePosixPath database) (mkdtemp os) suffixes
         (w\<lparr>localfs := (localfs w)(mkdtemp os \<mapsto> Map.empty),
            events := events w @ [Mkdtemp (mkdtemp os)]\<rparr>) = (Some e, w2)"
  then show "fst (open_remote_sqlite_database adb database sqlite3 os body w) = Inl e"
    by (rule loader_propagates)
next
  assume a: "path_name (PurePosixPath database) \<noteq> [] \<and> adb (PurePosixPath database) = Inl e"
  then have "pull_files adb os (PurePosixPath database) (mkdtemp os) suffixes
         (w\<lparr>localfs := (localfs w)(mkdtemp os \<mapsto> Map.empty),
            events := events w @ [Mkdtemp (mkdtemp os)]\<rparr>) =
         (Some e, w\<lparr>localfs := (localfs w)(mkdtemp os \<mapsto> Map.empty),
            events := events w @ [Mkdtemp (mkdtemp os)]\<rparr>)"
    by (intro primary_failure) simp_all
  then show "fst (open_remote_sqlite_database adb database sqlite3 os body w) = Inl e"
    by (rule loader_propagates)
qed

text \<open>
  Four runs: a device without the database (the call raises the device's
  \<^verbatim>\<open>FileNotFoundError\<close>), a missing \<open>-wal\<close> file (skipped), a device that is
  offline when the \<open>-wal\<close> file is read, and a stream that breaks while it is read
  (the loop is left by that error).
\<close>

theorem read_failures_witness:
  "fst (open_remote_sqlite_database empty_adb ''/data/accounts.db'' example_sqlite3 example_os
         (\<lambda>c fs. (Inr (), fs)) example_world) = Inl (FileNotFoundError ''/data/accounts.db'')
   \<and> pull_files example_adb example_os (PurePosixPath ''/data/accounts.db'') ''/tmp/tmp0''
        [''-wal'', ''-shm''] example_world =
      pull_files example_adb example_os (PurePosixPath ''/data/accounts.db'') ''/tmp/tmp0''
        [''-shm''] example_world
   \<and> pull_files (\<lambda>p. Inl (OtherError ''device offline'')) example_os
        (PurePosixPath ''/data/accounts.db'') ''/tmp/tmp0'' [''-wal'', ''-shm''] example_world =
      (Some (OtherError ''device offline''), example_world)
   \<and> pull_files (\<lambda>p. Inr (Inl (OtherError ''connection reset''))) example_os
        (PurePosixPath ''/data/accounts.db'') ''/tmp/tmp0'' [''-wal'', ''-shm''] example_world =
      (Some (OtherError ''connection reset''), example_world)"
proof -
  let ?db = "\<lparr>root = ''/'', parts = [''data'', ''accounts.db'']\<rparr>"
  let ?wal = "\<lparr>root = ''/'', parts = [''data'', ''accounts.db-wal'']\<rparr>"
  have 1: "path_name (PurePosixPath ''/data/accounts.db'') \<noteq> []
        \<and> empty_adb (PurePosixPath ''/data/accounts.db'') = Inl (FileNotFoundError ''/data/accounts.db'')"
    by (simp add: example_path path_name_def empty_adb_def path_str_def)
  have 2: "remote_file ?db ''-wal'' = Inr ?wal \<and> example_adb ?wal = Inl (FileNotFoundError ''/data/accounts.db-wal'')
        \<and> is_FileNotFoundError (FileNotFoundError ''/data/accounts.db-wal'') \<and> ''-wal'' \<noteq> []"
    by (simp add: example_remote_files example_adb_def path_str_def)
  have 3: "remote_file ?db ''-wal'' = Inr ?wal \<and> (\<lambda>p. Inl (OtherError ''device offline'')) ?wal = Inl (OtherError ''device offline'')
        \<and> \<not> is_FileNotFoundError (OtherError ''device offline'')"
    by (simp add: example_remote_files)
  have 4: "remote_file ?db ''-wal'' = Inr ?wal
        \<and> (\<lambda>p. Inr (Inl (OtherError ''connection reset''))) ?wal = Inr (Inl (OtherError ''connection reset''))"
    by (simp add: example_remote_files)
  note inst1 = read_failures [where adb = empty_adb and e = "FileNotFoundError ''/data/accounts.db''"
      and database = "''/data/accounts.db''" and ?sqlite3.0 = example_sqlite3 and os = example_os
      and body = "\<lambda>c fs. (Inr (), fs)" and w = example_world and db = ?db and rf = ?db
      and t = "''/tmp/tmp0''" and rest = "[]" and suffix = "[]" and ?w2.0 = example_world]
  note inst2 = read_failures [where db = ?db and rf = ?wal and adb = example_adb
      and e = "FileNotFoundError ''/data/accounts.db-wal''" and os = example_os
      and t = "''/tmp/tmp0''" and rest = "[''-shm'']" and w = example_world and suffix = "''-wal''"
      and database = "''/data/accounts.db''" and ?sqlite3.0 = example_sqlite3
      and body = "\<lambda>c fs. (Inr (), fs)" and ?w2.0 = example_world]
  note inst3 = read_failures [where db = ?db and rf = ?wal
      and adb = "\<lambda>p. Inl (OtherError ''device offline'')"
      and e = "OtherError ''device offline''" and os = example_os
      and t = "''/tmp/tmp0''" and rest = "[''-shm'']" and w = example_world and suffix = "''-wal''"
      and database = "''/data/accounts.db''" and ?sqlite3.0 = example_sqlite3
      and body = "\<lambda>c fs. (Inr (), fs)" and ?w2.0 = example_world]
  note inst4 = read_failures [where db = ?db and rf = ?wal
      and adb = "\<lambda>p. Inr (Inl (OtherError ''connection reset''))"
      and e = "OtherError ''connection reset''" and os = example_os
      and t = "''/tmp/tmp0''" and rest = "[''-shm'']" and w = example_world and suffix = "''-wal''"
      and database = "''/data/accounts.db''" and ?sqlite3.0 = example_sqlite3
      and body = "\<lambda>c fs. (Inr (), fs)" and ?w2.0 = example_world]
  from inst1 1 have a: "fst (open_remote_sqlite_database empty_adb ''/data/accounts.db'' example_sqlite3 example_os
         (\<lambda>c fs. (Inr (), fs)) example_world) = Inl (FileNotFoundError ''/data/accounts.db'')"
    by simp
  from inst2 2 have b: "pull_files example_adb example_os ?db ''/tmp/tmp0'' [''-wal'', ''-shm''] example_world =
      pull_files example_adb example_os ?db ''/tmp/tmp0'' [''-shm''] example_world"
    by simp
  from inst3 3 have c: "pull_files (\<lambda>p. Inl (OtherError ''device offline'')) example_os ?db ''/tmp/tmp0'' [''-wal'', ''-shm''] example_world =
      (Some (OtherError ''device offline''), example_world)"
    by simp
  from inst4 4 have d: "pull_files (\<lambda>p. Inr (Inl (OtherError ''connection reset''))) example_os ?db ''/tmp/tmp0'' [''-wal'', ''-shm''] example_world =
      (Some (OtherError ''connection reset''), example_world)"
    by simp
  from a b c d show ?thesis by (simp only: example_path simp_thms)
qed

text \<open>
  Claim C2. However the scoped block is left (the caller's block returned or raised, the
  primary file was not found, a read, a write or \<^verbatim>\<open>sqlite3.connect\<close> failed), the
  snapshot directory does not exist afterwards and no connection is left open; the trace
  of the call is the creation of the directory, the writes into it, and then either the
  removal of the directory alone (no connection was opened) or connect, yield, close and
  the removal, in this order: the connection is closed before the directory is removed.
\<close>

theorem scoped_cleanup:
  assumes "open_remote_sqlite_database adb database sqlite3 os body w = (r, w')"
  shows "localfs w' (mkdtemp os) = None
   \<and> connections w' = connections w
   \<and> (\<exists>ns. events w' = events w @ [Mkdtemp (mkdtemp os)] @ map (Write_bytes (mkdtemp os)) ns
                        @ [Rmtree (mkdtemp os)]
           \<or> events w' = events w @ [Mkdtemp (mkdtemp os)] @ map (Write_bytes (mkdtemp os)) ns
                        @ [Connect (mkdtemp os @ ''/'' @ path_name (PurePosixPath database)),
                           Yield (mkdtemp os @ ''/'' @ path_name (PurePosixPath database)),
                           Close (mkdtemp os @ ''/'' @ path_name (PurePosixPath database)),
                           Rmtree (mkdtemp os)])"
proof -
  let ?t = "mkdtemp os"
  let ?db = "PurePosixPath database"
  let ?p = "?t @ ''/'' @ path_name ?db"
  let ?w1 = "w\<lparr>localfs := (localfs w)(?t \<mapsto> Map.empty), events := events w @ [Mkdtemp ?t]\<rparr>"
  obtain e w2 where pull: "pull_files adb os ?db ?t suffixes ?w1 = (e, w2)"
    by (cases "pull_files adb os ?db ?t suffixes ?w1")
  from pull_files_frame [OF pull] obtain ns where
    w2: "connections w2 = connections w"
    "events w2 = events w @ [Mkdtemp ?t] @ map (Write_bytes ?t) ns"
    by auto
  show ?thesis
  proof (cases e)
    case (Some x)
    with pull assms have "w' = rmtree ?t w2"
      by (simp add: open_remote_sqlite_database_def Let_def)
    with w2 show ?thesis by (auto simp: rmtree_def)
  next
    case None
    obtain r3 w3 where cc: "closing_connect sqlite3 ?p body w2 = (r3, w3)"
      by (cases "closing_connect sqlite3 ?p body w2")
    with None pull assms have w': "w' = rmtree ?t w3"
      by (simp add: open_remote_sqlite_database_def Let_def)
    from closing_connect_frame [OF cc] w2
    have "connections w3 = connections w"
      "events w3 = events w @ [Mkdtemp ?t] @ map (Write_bytes ?t) ns
       \<or> events w3 = events w @ [Mkdtemp ?t] @ map (Write_bytes ?t) ns @ [Connect ?p, Yield ?p, Close ?p]"
      by auto
    with w' show ?thesis by (auto simp: rmtree_def)
  qed
qed

text \<open>
  Two runs: the caller's block raises (its exception is the result, the connection was
  closed and then the directory removed), and the database is not on the device (no
  connection, the directory removed).
\<close>

theorem scoped_cleanup_witness:
  "fst (open_remote_sqlite_database example_adb ''/data/accounts.db'' example_sqlite3 example_os
         (\<lambda>c fs. (Inl (OtherError ''caller'') :: exn + unit, fs)) example_world) = Inl (OtherError ''caller'')
   \<and> localfs (snd (open_remote_sqlite_database example_adb ''/data/accounts.db'' example_sqlite3
         example_os (\<lambda>c fs. (Inl (OtherError ''caller'') :: exn + unit, fs)) example_world)) ''/tmp/tmp0'' = None
   \<and> connections (snd (open_remote_sqlite_database example_adb ''/data/accounts.db''
         example_sqlite3 example_os (\<lambda>c fs. (Inl (OtherError ''caller'') :: exn + unit, fs)) example_world)) = []
   \<and> events (snd (open_remote_sqlite_database example_adb ''/data/accounts.db''
         example_sqlite3 example_os (\<lambda>c fs. (Inl (OtherError ''caller'') :: exn + unit, fs)) example_world)) =
       [Mkdtemp ''/tmp/tmp0'', Write_bytes ''/tmp/tmp0'' ''accounts.db'',
        Connect ''/tmp/tmp0/accounts.db'', Yield ''/tmp/tmp0/accounts.db'',
        Close ''/tmp/tmp0/accounts.db'', Rmtree ''/tmp/tmp0'']
   \<and> fst (open_remote_sqlite_database empty_adb ''/data/accounts.db'' example_sqlite3 example_os
         (\<lambda>c fs. (Inr (), fs)) example_world) = Inl (FileNotFoundError ''/data/accounts.db'')
   \<and> localfs (snd (open_remote_sqlite_database empty_adb ''/data/accounts.db'' example_sqlite3
         example_os (\<lambda>c fs. (Inr (), fs)) example_world)) ''/tmp/tmp0'' = None
   \<and> events (snd (open_remote_sqlite_database empty_adb ''/data/accounts.db'' example_sqlite3
         example_os (\<lambda>c fs. (Inr (), fs)) example_world)) =
       [Mkdtemp ''/tmp/tmp0'', Rmtree ''/tmp/tmp0'']"
proof -
  let ?run1 = "open_remote_sqlite_database example_adb ''/data/accounts.db'' example_sqlite3
         example_os (\<lambda>c fs. (Inl (OtherError ''caller'') :: exn + unit, fs)) example_world"
  let ?run2 = "open_remote_sqlite_database empty_adb ''/data/accounts.db'' example_sqlite3
         example_os (\<lambda>c fs. (Inr () :: exn + unit, fs)) example_world"
  let ?w1 = "example_world\<lparr>localfs := [''/tmp/tmp0'' \<mapsto> Map.empty],
                events := [Mkdtemp ''/tmp/tmp0'']\<rparr>"
  have pull1: "pull_files example_adb example_os (PurePosixPath ''/data/accounts.db'') ''/tmp/tmp0''
      suffixes ?w1 =
      (None, ?w1\<lparr>localfs := (localfs ?w1)(''/tmp/tmp0'' \<mapsto> [''accounts.db'' \<mapsto> [1, 2, 3]]),
                 events := events ?w1 @ [Write_bytes ''/tmp/tmp0'' ''accounts.db'']\<rparr>)"
    using only_primary_pulled [where database = "''/data/accounts.db''" and adb = example_adb
        and data = "[1, 2, 3]" and os = example_os and t = "''/tmp/tmp0''" and w = ?w1]
    by (simp add: example_fetched example_os_fields)
  have pull2: "pull_files empty_adb example_os (PurePosixPath ''/data/accounts.db'') ''/tmp/tmp0''
      suffixes ?w1 = (Some (FileNotFoundError ''/data/accounts.db''), ?w1)"
    by (simp add: suffixes_def example_path example_remote_files empty_adb_def path_str_def)
  have r1: "fst ?run1 = Inl (OtherError ''caller'')"
    "events (snd ?run1) = [Mkdtemp ''/tmp/tmp0'', Write_bytes ''/tmp/tmp0'' ''accounts.db'',
        Connect ''/tmp/tmp0/accounts.db'', Yield ''/tmp/tmp0/accounts.db'',
        Close ''/tmp/tmp0/accounts.db'', Rmtree ''/tmp/tmp0'']"
    by (simp_all add: open_remote_sqlite_database_def Let_def example_os_fields
        example_world_fields pull1 closing_connect_def example_sqlite3_def close_def rmtree_def
        example_fetched)
  have r2: "fst ?run2 = Inl (FileNotFoundError ''/data/accounts.db'')"
    "events (snd ?run2) = [Mkdtemp ''/tmp/tmp0'', Rmtree ''/tmp/tmp0'']"
    by (simp_all add: open_remote_sqlite_database_def Let_def example_os_fields
        example_world_fields pull2 rmtree_def)
  have c1: "localfs (snd ?run1) (mkdtemp example_os) = None \<and>
      connections (snd ?run1) = connections example_world"
    using scoped_cleanup [of example_adb "''/data/accounts.db''" example_sqlite3 example_os
        "\<lambda>c fs. (Inl (OtherError ''caller'') :: exn + unit, fs)" example_world "fst ?run1" "snd ?run1"]
    by simp
  have c2: "localfs (snd ?run2) (mkdtemp example_os) = None"
    using scoped_cleanup [of empty_adb "''/data/accounts.db''" example_sqlite3 example_os
        "\<lambda>c fs. (Inr () :: exn + unit, fs)" example_world "fst ?run2" "snd ?run2"]
    by simp
  from r1 r2 c1 c2 show ?thesis
    by (simp add: example_os_fields example_world_fields)
qed

text \<open>
  Claim C8. When the loop ends without an exception, the snapshot directory holds, under
  the database's name followed by the suffix, exactly the bytes read for each of the four
  remote files that was read, and nothing else. So when the device has the primary file and
  none of the side files (and the local write and \<^verbatim>\<open>sqlite3.connect\<close> succeed), the
  caller's block runs with a connection to the local copy, in a directory that holds that
  one file, and the result of the call is the result of the block.
\<close>

theorem snapshot_contents:
  "(pull_files adb os db t suffixes
       (w\<lparr>localfs := (localfs w)(t \<mapsto> Map.empty), events := events w @ [Mkdtemp t]\<rparr>) = (None, w2) \<longrightarrow>
      (\<exists>files. localfs w2 = (localfs w)(t \<mapsto> files)
         \<and> (\<forall>s\<in>set suffixes. files (path_name db @ s) = fetched adb db s)
         \<and> dom files \<subseteq> (\<lambda>s. path_name db @ s) ` set suffixes))
   \<and> (path_name (PurePosixPath database) \<noteq> []
       \<and> fetched adb (PurePosixPath database) [] = Some data
       \<and> absent adb (PurePosixPath database) ''-journal''
       \<and> absent adb (PurePosixPath database) ''-wal''
       \<and> absent adb (PurePosixPath database) ''-shm''
       \<and> write_fault os (path_name (PurePosixPath database)) = None
       \<and> sqlite3 (mkdtemp os @ ''/'' @ path_name (PurePosixPath database)) = None \<longrightarrow>
      fst (open_remote_sqlite_database adb database sqlite3 os body w) =
        fst (body \<lparr>db_path = mkdtemp os @ ''/'' @ path_name (PurePosixPath database),
                    row_factory = Row\<rparr>
               ((localfs w)(mkdtemp os \<mapsto> [path_name (PurePosixPath database) \<mapsto> data]))))"
proof (intro conjI impI)
  let ?w1 = "w\<lparr>localfs := (localfs w)(t \<mapsto> Map.empty), events := events w @ [Mkdtemp t]\<rparr>"
  assume pull: "pull_files adb os db t suffixes ?w1 = (None, w2)"
  have dir: "localfs ?w1 t = Some Map.empty" by simp
  have dist: "distinct suffixes" by (simp add: suffixes_def)
  from pull_files_stores [OF pull dir dist] obtain files where
    f: "localfs w2 = (localfs ?w1)(t \<mapsto> files)"
      "\<forall>s\<in>set suffixes. files (path_name db @ s) =
          (case fetched adb db s of Some data \<Rightarrow> Some data | None \<Rightarrow> Map.empty (path_name db @ s))"
      "\<forall>n. n \<notin> (\<lambda>s. path_name db @ s) ` set suffixes \<longrightarrow> files n = Map.empty n"
    by blast
  from f(1) have 1: "localfs w2 = (localfs w)(t \<mapsto> files)" by simp
  from f(2) have 2: "\<forall>s\<in>set suffixes. files (path_name db @ s) = fetched adb db s"
    by (auto split: option.splits)
  from f(3) have 3: "dom files \<subseteq> (\<lambda>s. path_name db @ s) ` set suffixes"
    by (auto simp: dom_def)
  from 1 2 3 show "\<exists>files. localfs w2 = (localfs w)(t \<mapsto> files)
         \<and> (\<forall>s\<in>set suffixes. files (path_name db @ s) = fetched adb db s)
         \<and> dom files \<subseteq> (\<lambda>s. path_name db @ s) ` set suffixes"
    by blast
next
  let ?db = "PurePosixPath database"
  let ?t = "mkdtemp os"
  let ?w1 = "w\<lparr>localfs := (localfs w)(?t \<mapsto> Map.empty), events := events w @ [Mkdtemp ?t]\<rparr>"
  assume a: "path_name ?db \<noteq> []
       \<and> fetched adb ?db [] = Some data
       \<and> absent adb ?db ''-journal'' \<and> absent adb ?db ''-wal'' \<and> absent adb ?db ''-shm''
       \<and> write_fault os (path_name ?db) = None
       \<and> sqlite3 (?t @ ''/'' @ path_name ?db) = None"
  have "pull_files adb os ?db ?t suffixes ?w1 =
      (None, ?w1\<lparr>localfs := (localfs ?w1)(?t \<mapsto> [path_name ?db \<mapsto> data]),
                 events := events ?w1 @ [Write_bytes ?t (path_name ?db)]\<rparr>)"
    using a by (intro only_primary_pulled) simp_all
  with a show "fst (open_remote_sqlite_database adb database sqlite3 os body w) =
        fst (body \<lparr>db_path = ?t @ ''/'' @ path_name ?db, row_factory = Row\<rparr>
               ((localfs w)(?t \<mapsto> [path_name ?db \<mapsto> data])))"
    by (simp add: open_remote_sqlite_database_def closing_connect_def Let_def split: prod.splits)
qed

text \<open>
  The example device: the block sees the connection's path and row factory, the one name
  in the directory and the three bytes under it; at the end of the loop the directory
  holds the database and none of the side files.
\<close>

theorem snapshot_contents_witness:
  "fst (open_remote_sqlite_database example_adb ''/data/accounts.db'' example_sqlite3 example_os
         (\<lambda>c fs. (Inr (db_path c, row_factory c, map_option dom (fs ''/tmp/tmp0''),
                         map_option (\<lambda>d. d ''accounts.db'') (fs ''/tmp/tmp0'')), fs))
         example_world) =
     Inr (''/tmp/tmp0/accounts.db'', Row, Some {''accounts.db''}, Some (Some [1, 2, 3]))
   \<and> (\<exists>files.
         localfs (snd (pull_files example_adb example_os (PurePosixPath ''/data/accounts.db'')
                   ''/tmp/tmp0'' suffixes
                   (example_world\<lparr>localfs := (localfs example_world)(''/tmp/tmp0'' \<mapsto> Map.empty),
                                  events := events example_world @ [Mkdtemp ''/tmp/tmp0'']\<rparr>))) =
           [''/tmp/tmp0'' \<mapsto> files]
         \<and> files ''accounts.db'' = Some [1, 2, 3]
         \<and> files ''accounts.db-journal'' = None
         \<and> files ''accounts.db-wal'' = None
         \<and> files ''accounts.db-shm'' = None)"
proof -
  let ?db = "PurePosixPath ''/data/accounts.db''"
  let ?w1 = "example_world\<lparr>localfs := (localfs example_world)(''/tmp/tmp0'' \<mapsto> Map.empty),
                events := events example_world @ [Mkdtemp ''/tmp/tmp0'']\<rparr>"
  have hyp: "path_name ?db \<noteq> []
       \<and> fetched example_adb ?db [] = Some [1, 2, 3]
       \<and> absent example_adb ?db ''-journal''
       \<and> absent example_adb ?db ''-wal''
       \<and> absent example_adb ?db ''-shm''
       \<and> write_fault example_os (path_name ?db) = None
       \<and> example_sqlite3 (mkdtemp example_os @ ''/'' @ path_name ?db) = None"
    by (simp add: example_fetched example_os_fields example_sqlite3_def)
  note inst = snapshot_contents [where database = "''/data/accounts.db''" and adb = example_adb
      and data = "[1, 2, 3]" and os = example_os and ?sqlite3.0 = example_sqlite3
      and w = example_world and db = ?db and t = "''/tmp/tmp0''"
      and ?w2.0 = "snd (pull_files example_adb example_os ?db ''/tmp/tmp0'' suffixes ?w1)"
      and body = "\<lambda>c fs. (Inr (db_path c, row_factory c, map_option dom (fs ''/tmp/tmp0''),
                         map_option (\<lambda>d. d ''accounts.db'') (fs ''/tmp/tmp0'')), fs)"]
  from inst hyp have block: "fst (open_remote_sqlite_database example_adb ''/data/accounts.db''
         example_sqlite3 example_os
         (\<lambda>c fs. (Inr (db_path c, row_factory c, map_option dom (fs ''/tmp/tmp0''),
                         map_option (\<lambda>d. d ''accounts.db'') (fs ''/tmp/tmp0'')), fs))
         example_world) =
     Inr (''/tmp/tmp0/accounts.db'', Row, Some {''accounts.db''}, Some (Some [1, 2, 3]))"
    by (simp add: example_fetched example_os_fields example_world_fields)
  have pulled: "pull_files example_adb example_os ?db ''/tmp/tmp0'' suffixes ?w1 =
      (None, snd (pull_files example_adb example_os ?db ''/tmp/tmp0'' suffixes ?w1))"
    using only_primary_pulled [where database = "''/data/accounts.db''" and adb = example_adb
        and data = "[1, 2, 3]" and os = example_os and t = "''/tmp/tmp0''" and w = ?w1]
    by (simp add: example_fetched example_os_fields)
  from inst pulled obtain files where
    f: "localfs (snd (pull_files example_adb example_os ?db ''/tmp/tmp0'' suffixes ?w1)) =
          (localfs example_world)(''/tmp/tmp0'' \<mapsto> files)"
       "\<forall>s\<in>set suffixes. files (path_name ?db @ s) = fetched example_adb ?db s"
    by blast
  from f(1) have dir: "localfs (snd (pull_files example_adb example_os ?db ''/tmp/tmp0'' suffixes ?w1)) =
          [''/tmp/tmp0'' \<mapsto> files]"
    by (simp add: example_world_fields)
  from f(2) have "files ''accounts.db'' = Some [1, 2, 3]" "files ''accounts.db-journal'' = None"
    "files ''accounts.db-wal'' = None" "files ''accounts.db-shm'' = None"
    by (simp_all add: suffixes_def example_fetched example_sides_not_fetched)
  with dir have "\<exists>files.
         localfs (snd (pull_files example_adb example_os ?db ''/tmp/tmp0'' suffixes ?w1)) =
           [''/tmp/tmp0'' \<mapsto> files]
         \<and> files ''accounts.db'' = Some [1, 2, 3]
         \<and> files ''accounts.db-journal'' = None
         \<and> files ''accounts.db-wal'' = None
         \<and> files ''accounts.db-shm'' = None"
    by blast
  with block show ?thesis by blast
qed

subsection \<open>Ephemeral disclosure renderer\<close>

text \<open>
  The bracket replacement against the JSON encoder: the encoder writes a closing bracket
  only for a closing bracket of the input and leaves spaces as they are, so replacing in
  the encoded text is encoding the replaced strings.
\<close>

lemma hex_digit_cases:
  "hex_digit d \<in> set ''0123456789abcdef''"
  unfolding hex_digit_def by (rule nth_mem) simp

lemma hex_digit_not_bracket: "hex_digit d \<noteq> CHR '']''"
  using hex_digit_cases [of d] by auto

lemma json_escape_bracket: "json_escape (CHR '']'') = '']''"
  by (simp add: json_escape_def)

lemma json_escape_space: "json_escape (CHR '' '') = '' ''"
  by (simp add: json_escape_def)

lemma json_escape_no_bracket: "c \<noteq> CHR '']'' \<Longrightarrow> CHR '']'' \<notin> set (json_escape c)"
  by (simp add: json_escape_def hex_digit_not_bracket [THEN not_sym])

lemma replace_bracket_append:
  "replace_bracket (xs @ ys) = replace_bracket xs @ replace_bracket ys"
  by (simp add: replace_bracket_def)

lemma replace_bracket_Cons:
  "replace_bracket (c # s) =
     (if c = CHR '']'' then replicate 8 (CHR '' '') @ '']'' else [c]) @ replace_bracket s"
  by (simp add: replace_bracket_def)

lemma replace_bracket_Nil: "replace_bracket [] = []"
  by (simp add: replace_bracket_def)

lemma replace_bracket_id: "CHR '']'' \<notin> set s \<Longrightarrow> replace_bracket s = s"
  by (induction s) (auto simp: replace_bracket_Nil replace_bracket_Cons)

lemma length_replace_bracket:
  "length (replace_bracket s) = length s + 8 * count_list s (CHR '']'')"
  by (induction s) (simp_all add: replace_bracket_Nil replace_bracket_Cons)

lemma replace_bracket_same_iff: "replace_bracket s = s \<longleftrightarrow> CHR '']'' \<notin> set s"
proof
  assume "replace_bracket s = s"
  then have "length (replace_bracket s) = length s" by simp
  then have "count_list s (CHR '']'') = 0" by (simp add: length_replace_bracket)
  then show "CHR '']'' \<notin> set s" by (simp add: count_list_0_iff)
qed (rule replace_bracket_id)

lemma replace_bracket_json_escape:
  "replace_bracket (json_escape c) = concat (map json_escape (replace_bracket [c]))"
proof (cases "c = CHR '']''")
  case True
  then show ?thesis
    by (simp add: json_escape_bracket replace_bracket_Cons replace_bracket_Nil json_escape_space
        eval_nat_numeral)
next
  case False
  then show ?thesis
    by (simp add: replace_bracket_id json_escape_no_bracket replace_bracket_Cons replace_bracket_Nil)
qed

lemma replace_bracket_escaped:
  "replace_bracket (concat (map json_escape s)) = concat (map json_escape (replace_bracket s))"
proof (induction s)
  case Nil
  show ?case by (simp add: replace_bracket_Nil)
next
  case (Cons c s)
  have "replace_bracket (c # s) = replace_bracket [c] @ replace_bracket s"
    by (simp add: replace_bracket_Cons replace_bracket_Nil)
  with Cons show ?case
    by (simp add: replace_bracket_append replace_bracket_json_escape)
qed

lemma replace_bracket_encode:
  "replace_bracket (encode_basestring_ascii s) = encode_basestring_ascii (replace_bracket s)"
  by (simp add: encode_basestring_ascii_def replace_bracket_append replace_bracket_escaped
      replace_bracket_Cons replace_bracket_Nil)

lemma replace_bracket_newline_indent: "replace_bracket newline_indent = newline_indent"
  by (rule replace_bracket_id) (simp add: newline_indent_def)

lemma replace_bracket_items:
  "replace_bracket (concat (map (\<lambda>v. CHR '','' # newline_indent @ encode_basestring_ascii v) xs)) =
     concat (map (\<lambda>v. CHR '','' # newline_indent @ encode_basestring_ascii (replace_bracket v)) xs)"
  by (induction xs)
     (simp_all add: replace_bracket_Nil replace_bracket_append replace_bracket_Cons
       replace_bracket_newline_indent replace_bracket_encode)

lemma replace_bracket_json_dumps:
  "replace_bracket (json_dumps xs) =
     butlast (json_dumps (map replace_bracket xs)) @ replicate 8 (CHR '' '') @ '']''"
proof (cases xs)
  case Nil
  then show ?thesis
    by (simp add: json_dumps_def replace_bracket_Cons replace_bracket_Nil)
next
  case (Cons x rest)
  have "butlast (json_dumps (map replace_bracket (x # rest))) =
      ''['' @ newline_indent @ encode_basestring_ascii (replace_bracket x)
      @ concat (map (\<lambda>v. CHR '','' # newline_indent @ encode_basestring_ascii (replace_bracket v)) rest)
      @ [CHR 0x0A]"
    by (simp add: json_dumps_def butlast_append comp_def)
  with Cons show ?thesis
    by (simp add: json_dumps_def replace_bracket_append replace_bracket_Cons replace_bracket_Nil
        replace_bracket_newline_indent replace_bracket_encode replace_bracket_items comp_def)
qed

lemma count_json_escape:
  "count_list (json_escape c) (CHR '']'') = (if c = CHR '']'' then 1 else 0)"
  using json_escape_no_bracket [of c]
  by (auto simp: json_escape_bracket count_list_0_iff)

lemma count_escaped:
  "count_list (concat (map json_escape s)) (CHR '']'') = count_list s (CHR '']'')"
  by (induction s) (simp_all add: count_list_append count_json_escape)

lemma count_encode:
  "count_list (encode_basestring_ascii s) (CHR '']'') = count_list s (CHR '']'')"
  by (simp add: encode_basestring_ascii_def count_list_append count_escaped)

lemma count_newline_indent: "count_list newline_indent (CHR '']'') = 0"
  by (simp add: count_list_0_iff newline_indent_def)

lemma count_items:
  "count_list (concat (map (\<lambda>v. CHR '','' # newline_indent @ encode_basestring_ascii v) xs)) (CHR '']'') =
     sum_list (map (\<lambda>x. count_list x (CHR '']'')) xs)"
  by (induction xs) (simp_all add: count_list_append count_newline_indent count_encode)

lemma count_json_dumps:
  "count_list (json_dumps xs) (CHR '']'') = 1 + sum_list (map (\<lambda>x. count_list x (CHR '']'')) xs)"
  by (cases xs)
     (simp_all add: json_dumps_def count_list_append count_newline_indent count_encode count_items)

lemma json_dumps_not_Nil: "json_dumps xs \<noteq> []"
  by (cases xs) (simp_all add: json_dumps_def)

lemma replace_bracket_json_dumps_plain_iff:
  "replace_bracket (json_dumps xs) = butlast (json_dumps xs) @ replicate 8 (CHR '' '') @ '']''
     \<longleftrightarrow> (\<forall>x\<in>set xs. CHR '']'' \<notin> set x)"
proof
  assume eq: "replace_bracket (json_dumps xs) = butlast (json_dumps xs) @ replicate 8 (CHR '' '') @ '']''"
  have "length (json_dumps xs) \<ge> 1"
    using json_dumps_not_Nil [of xs] by (cases "json_dumps xs") simp_all
  moreover from eq have "length (replace_bracket (json_dumps xs)) = length (json_dumps xs) - 1 + 9"
    by simp
  ultimately have "count_list (json_dumps xs) (CHR '']'') = 1"
    by (simp add: length_replace_bracket)
  then have "sum_list (map (\<lambda>x. count_list x (CHR '']'')) xs) = 0"
    by (simp add: count_json_dumps)
  then show "\<forall>x\<in>set xs. CHR '']'' \<notin> set x"
    by (auto simp: count_list_0_iff)
next
  assume "\<forall>x\<in>set xs. CHR '']'' \<notin> set x"
  then have "map replace_bracket xs = xs"
    by (induction xs) (simp_all add: replace_bracket_id)
  then show "replace_bracket (json_dumps xs) = butlast (json_dumps xs) @ replicate 8 (CHR '' '') @ '']''"
    by (simp add: replace_bracket_json_dumps)
qed

lemma set_sorted_uris:
  "set (sorted_uris as_uri accounts b) = (\<lambda>a. as_uri a b) ` set accounts"
  by (simp add: sorted_uris_def)

text \<open>
  Claim C10. The text embedded in the page is the JSON text of the sorted URIs with eight
  spaces put in front of every closing bracket. That is the serialisation, with its own
  closing bracket indented by eight spaces, of the list in which every URI has eight spaces
  in front of each of its closing brackets. It is the serialisation (closing bracket
  indented) of the sorted URIs themselves exactly when no URI holds a closing bracket; and
  for an account whose URI holds one, the string in the embedded list is not the URI.
\<close>

theorem embedded_array_brackets:
  "embedded_array as_uri accounts b =
     butlast (json_dumps (map replace_bracket (sorted_uris as_uri accounts b)))
       @ replicate 8 (CHR '' '') @ '']''
   \<and> (embedded_array as_uri accounts b =
         butlast (json_dumps (sorted_uris as_uri accounts b)) @ replicate 8 (CHR '' '') @ '']''
       \<longleftrightarrow> (\<forall>a\<in>set accounts. CHR '']'' \<notin> set (as_uri a b)))
   \<and> (\<forall>a\<in>set accounts. CHR '']'' \<in> set (as_uri a b) \<longrightarrow>
         replace_bracket (as_uri a b) \<in> set (map replace_bracket (sorted_uris as_uri accounts b))
         \<and> replace_bracket (as_uri a b) \<noteq> as_uri a b)"
proof (intro conjI ballI impI)
  show "embedded_array as_uri accounts b =
     butlast (json_dumps (map replace_bracket (sorted_uris as_uri accounts b)))
       @ replicate 8 (CHR '' '') @ '']''"
    by (simp only: embedded_array_def replace_bracket_json_dumps)
next
  show "embedded_array as_uri accounts b =
         butlast (json_dumps (sorted_uris as_uri accounts b)) @ replicate 8 (CHR '' '') @ '']''
       \<longleftrightarrow> (\<forall>a\<in>set accounts. CHR '']'' \<notin> set (as_uri a b))"
    by (simp only: embedded_array_def replace_bracket_json_dumps_plain_iff set_sorted_uris ball_simps)
next
  fix a assume "a \<in> set accounts"
  then show "replace_bracket (as_uri a b) \<in> set (map replace_bracket (sorted_uris as_uri accounts b))"
    by (simp add: set_sorted_uris)
next
  fix a assume "CHR '']'' \<in> set (as_uri a b)"
  then show "replace_bracket (as_uri a b) \<noteq> as_uri a b"
    by (simp add: replace_bracket_same_iff)
qed

text \<open>One account with the label \<open>a]b\<close>: the page holds \<open>a        ]b\<close>.\<close>

theorem embedded_array_brackets_witness:
  "embedded_array (\<lambda>a b. a) [''otpauth://totp/a]b''] False =
     ''['' @ newline_indent @ [CHR 0x22] @ ''otpauth://totp/a        ]b'' @ [CHR 0x22, CHR 0x0A]
       @ ''        ]''
   \<and> embedded_array (\<lambda>a b. a) [''otpauth://totp/a]b''] False \<noteq>
       butlast (json_dumps (sorted_uris (\<lambda>a b. a) [''otpauth://totp/a]b''] False)) @ ''        ]''
   \<and> replace_bracket ''otpauth://totp/a]b'' = ''otpauth://totp/a        ]b''"
proof -
  note inst = embedded_array_brackets [where as_uri = "\<lambda>a b. a"
      and accounts = "[''otpauth://totp/a]b'']" and b = False]
  have s: "sorted_uris (\<lambda>a b. a) [''otpauth://totp/a]b''] False = [''otpauth://totp/a]b'']"
    by (simp add: sorted_uris_def)
  have r: "replace_bracket ''otpauth://totp/a]b'' = ''otpauth://totp/a        ]b''"
    by (simp add: replace_bracket_def eval_nat_numeral)
  have e: "encode_basestring_ascii ''otpauth://totp/a        ]b'' =
      [CHR 0x22] @ ''otpauth://totp/a        ]b'' @ [CHR 0x22]"
    by (simp add: encode_basestring_ascii_def json_escape_def)
  from inst have 1: "embedded_array (\<lambda>a b. a) [''otpauth://totp/a]b''] False =
     butlast (json_dumps (map replace_bracket (sorted_uris (\<lambda>a b. a) [''otpauth://totp/a]b''] False)))
       @ replicate 8 (CHR '' '') @ '']''"
    by (rule conjunct1)
  have iff: "embedded_array (\<lambda>a b. a) [''otpauth://totp/a]b''] False =
         butlast (json_dumps (sorted_uris (\<lambda>a b. a) [''otpauth://totp/a]b''] False))
           @ replicate 8 (CHR '' '') @ '']''
       \<longleftrightarrow> (\<forall>a\<in>set [''otpauth://totp/a]b'']. CHR '']'' \<notin> set ((\<lambda>a b. a) a False))"
    by (rule inst [THEN conjunct2, THEN conjunct1])
  have "\<not> (\<forall>a\<in>set [''otpauth://totp/a]b'']. CHR '']'' \<notin> set ((\<lambda>a b. a) a False))"
    by simp
  with iff have 2: "embedded_array (\<lambda>a b. a) [''otpauth://totp/a]b''] False \<noteq>
       butlast (json_dumps (sorted_uris (\<lambda>a b. a) [''otpauth://totp/a]b''] False))
         @ replicate 8 (CHR '' '') @ '']''"
    by blast
  have 3: "replicate 8 (CHR '' '') @ '']'' = ''        ]''"
    by (simp add: eval_nat_numeral)
  from 1 2 show ?thesis
    by (simp only: s r e 3 list.map json_dumps_def list.case concat.simps append_Nil2 butlast_snoc
        butlast.simps append_assoc [symmetric] simp_thms)
      (simp add: butlast_append)
qed






text \<open>
  Once the page has been written, the file is removed whether the viewer and the wait
  return or raise; the result of the call is theirs.
\<close>

lemma display_removes_written_file:
  assumes "html_write_fault os = None"
  shows "display_qr_codes os as_uri accounts b fs = (open_and_wait os, fs(temp_name os := None))"
  using assms
  by (simp add: display_qr_codes_def Let_def write_html_def NamedTemporaryFile_def)

text \<open>
  Claim C3 (the file never outlives the call, on return or on exception), at a call whose
  write of the page raises, here for want of disk space. \<^verbatim>\<open>NamedTemporaryFile\<close> has
  created the file with \<^verbatim>\<open>delete=False\<close>; the write stands before the \<^verbatim>\<open>try\<close>, so
  the exception leaves the function without reaching \<^verbatim>\<open>os.remove\<close>, and the file is
  still there when the caller sees the exception.
\<close>

theorem write_failure_leaves_file:
  "display_qr_codes (example_display\<lparr>html_write_fault := Some (OtherError ''No space left on device'')\<rparr>)
       (\<lambda>a p. a) [''totp://totp/A?secret=Y&period=30&digits=6''] False Map.empty =
     (Some (OtherError ''No space left on device''),
      [''/tmp/tmpq7.html'' \<mapsto> \<lparr>mode = 0x180, content = []\<rparr>])
   \<and> snd (display_qr_codes
            (example_display\<lparr>html_write_fault := Some (OtherError ''No space left on device'')\<rparr>)
            (\<lambda>a p. a) [''totp://totp/A?secret=Y&period=30&digits=6''] False Map.empty)
         ''/tmp/tmpq7.html'' \<noteq> None"
  by (simp add: display_qr_codes_def Let_def write_html_def NamedTemporaryFile_def
      example_display_def)




end
